theory Spec2Isabelle
  imports Complex_Main
begin

section \<open>Data model of \<^verbatim>\<open>src/index.ts\<close>\<close>

text \<open>
  \<^verbatim>\<open>type Sign = 'X' | 'O' | ''\<close>. The three string literals become three constructors:
  \<open>SignX\<close> is \<^verbatim>\<open>'X'\<close>, \<open>SignO\<close> is \<^verbatim>\<open>'O'\<close> and \<open>SignEmpty\<close> is the empty string.
\<close>

datatype Sign = SignX | SignO | SignEmpty

text \<open>\<^verbatim>\<open>type SmallBoard = Sign[][]\<close> and \<^verbatim>\<open>type Board = Sign[][][]\<close>: JavaScript arrays of any
  length, so lists; the 3x3 and 9x3x3 shapes are an invariant, not a type.\<close>

type_synonym SmallBoard = "Sign list list"
type_synonym Board = "Sign list list list"

text \<open>
  \<^verbatim>\<open>type CurrentBoardIndex = number | null\<close>: \<open>None\<close> is \<^verbatim>\<open>null\<close>. The fields of a
  \<^verbatim>\<open>Position\<close> are \<^verbatim>\<open>number\<close>s that a client sends and that nothing checks, so they may
  be negative and they may be fractions such as 1.5. A \<^verbatim>\<open>number\<close> is modelled as a
  rational: every finite double is one. Arithmetic on rationals is exact; so is the
  arithmetic of doubles on the small integers that pass the validator.
\<close>

type_synonym CurrentBoardIndex = "rat option"

record Position =
  smallBoard :: rat
  row :: rat
  cell :: rat

record Player =
  player_id :: string
  sign :: Sign

record Game =
  players :: "Player list"
  board :: Board
  currentPlayer :: Sign
  currentBoard :: CurrentBoardIndex
  gameOver :: bool
  winner :: "Sign option"
  isTie :: bool

text \<open>
  What a handler can raise. \<open>TypeError\<close> is JavaScript's error for reading or writing a
  property of \<^verbatim>\<open>undefined\<close>. An assignment \<^verbatim>\<open>a[i] = v\<close> where \<open>i\<close> is not the index of an
  element of the array does not raise in JavaScript: past the end it grows the array and
  leaves holes, and for a negative or fractional \<open>i\<close> it adds a property to the object.
  Lists of \<open>Sign\<close> have neither holes nor properties, so the model stops there with
  \<open>GrowingWrite\<close>; lemma \<open>make_move_on_never_grows\<close> below shows that no handler ever
  reaches that branch.
\<close>

datatype error = TypeError | GrowingWrite

section \<open>Array access and error plumbing\<close>

text \<open>\<^verbatim>\<open>xs[i]\<close> for an array \<open>xs\<close> and a number \<open>i\<close>: the element when \<open>i\<close> is an integer
  within the array, and \<^verbatim>\<open>undefined\<close> (\<open>None\<close>) otherwise: out of range, negative, or not
  an integer (\<^verbatim>\<open>xs[1.5]\<close> is the property \<^verbatim>\<open>"1.5"\<close>, which an array does not have).\<close>

definition nth_opt :: "'a list \<Rightarrow> nat \<Rightarrow> 'a option" where
  "nth_opt xs n = (if n < length xs then Some (xs ! n) else None)"

definition elemAt :: "'a list \<Rightarrow> rat \<Rightarrow> 'a option" where
  "elemAt xs i = (if of_int \<lfloor>i\<rfloor> = i \<and> 0 \<le> i then nth_opt xs (nat \<lfloor>i\<rfloor>) else None)"

text \<open>Sequencing of computations that may raise, and the short-circuit operators
  \<^verbatim>\<open>&&\<close> and \<^verbatim>\<open>||\<close> over them: the right operand is evaluated only when needed.\<close>

definition bindE :: "error + 'a \<Rightarrow> ('a \<Rightarrow> error + 'b) \<Rightarrow> error + 'b" where
  "bindE m f = (case m of Inl e \<Rightarrow> Inl e | Inr v \<Rightarrow> f v)"

definition andE :: "error + bool \<Rightarrow> error + bool \<Rightarrow> error + bool" where
  "andE a b = bindE a (\<lambda>x. if x then b else Inr False)"

definition orE :: "error + bool \<Rightarrow> error + bool \<Rightarrow> error + bool" where
  "orE a b = bindE a (\<lambda>x. if x then Inr True else b)"

text \<open>\<^verbatim>\<open>g[r][c] === player\<close>: raises when \<^verbatim>\<open>g[r]\<close> is undefined; an undefined cell is
  simply different from every sign.\<close>

definition cellIs :: "SmallBoard \<Rightarrow> rat \<Rightarrow> rat \<Rightarrow> Sign \<Rightarrow> error + bool" where
  "cellIs g r c player =
     (case elemAt g r of
        None \<Rightarrow> Inl TypeError
      | Some rw \<Rightarrow> Inr (elemAt rw c = Some player))"

text \<open>\<^verbatim>\<open>g[r][c] = v\<close> on a grid.\<close>

definition writeGrid :: "SmallBoard \<Rightarrow> rat \<Rightarrow> rat \<Rightarrow> Sign \<Rightarrow> error + SmallBoard" where
  "writeGrid g r c v =
     (case elemAt g r of
        None \<Rightarrow> Inl TypeError
      | Some rw \<Rightarrow>
          (if of_int \<lfloor>c\<rfloor> = c \<and> 0 \<le> c \<and> nat \<lfloor>c\<rfloor> < length rw
           then Inr (g[nat \<lfloor>r\<rfloor> := rw[nat \<lfloor>c\<rfloor> := v]])
           else Inl GrowingWrite))"

text \<open>\<^verbatim>\<open>board[s][r][c] = v\<close> on the main board.\<close>

definition writeCell :: "Board \<Rightarrow> rat \<Rightarrow> rat \<Rightarrow> rat \<Rightarrow> Sign \<Rightarrow> error + Board" where
  "writeCell b s r c v =
     (case elemAt b s of
        None \<Rightarrow> Inl TypeError
      | Some sb \<Rightarrow> bindE (writeGrid sb r c v) (\<lambda>sb'. Inr (b[nat \<lfloor>s\<rfloor> := sb'])))"

section \<open>Board functions\<close>

definition boardSize :: nat where
  "boardSize = 9"

definition boardRowQuantity :: nat where
  "boardRowQuantity = 3"

text \<open>\<^verbatim>\<open>getEmptyCellIndexes\<close>: for every row (\<open>index\<close>), map each cell to its flat index
  or \<^verbatim>\<open>null\<close>, drop the nulls, append.\<close>

definition getEmptyCellIndexes :: "SmallBoard \<Rightarrow> nat list" where
  "getEmptyCellIndexes b =
     concat (map (\<lambda>(index, rw).
               map the (filter (\<lambda>x. x \<noteq> None)
                 (map (\<lambda>(rowIndex, sg).
                        if sg = SignEmpty then Some (rowIndex + boardRowQuantity * index) else None)
                      (enumerate 0 rw))))
             (enumerate 0 b))"

definition getEmptySmallBoard :: SmallBoard where
  "getEmptySmallBoard =
     [[SignEmpty, SignEmpty, SignEmpty],
      [SignEmpty, SignEmpty, SignEmpty],
      [SignEmpty, SignEmpty, SignEmpty]]"

text \<open>\<^verbatim>\<open>getDefaultBoard\<close>: the loop pushes \<open>boardSize\<close> fresh small boards.\<close>

fun pushSmallBoards :: "nat list \<Rightarrow> Board \<Rightarrow> Board" where
  "pushSmallBoards [] b = b"
| "pushSmallBoards (i # rest) b = pushSmallBoards rest (b @ [getEmptySmallBoard])"

definition getDefaultBoard :: Board where
  "getDefaultBoard = pushSmallBoards [0..<boardSize] []"

text \<open>
  \<^verbatim>\<open>checkSmallBoardWin\<close>. The loop over \<open>i\<close> returns \<open>true\<close> from inside; \<open>winLoop\<close> yields
  \<open>Inr True\<close> for that early return and \<open>Inr False\<close> when the loop falls through to the
  diagonal test. \<^verbatim>\<open>board[i].every(...)\<close> raises when \<^verbatim>\<open>board[i]\<close> is undefined;
  \<^verbatim>\<open>row[i] === player\<close> is false for an undefined cell.
\<close>

fun winLoop :: "SmallBoard \<Rightarrow> Sign \<Rightarrow> nat list \<Rightarrow> error + bool" where
  "winLoop b player [] = Inr False"
| "winLoop b player (i # rest) =
     (case nth_opt b i of
        None \<Rightarrow> Inl TypeError
      | Some rw \<Rightarrow>
          (if list_all (\<lambda>c. c = player) rw then Inr True
           else if list_all (\<lambda>rw'. nth_opt rw' i = Some player) b then Inr True
           else winLoop b player rest))"

definition diagonals :: "SmallBoard \<Rightarrow> Sign \<Rightarrow> error + bool" where
  "diagonals b player =
     orE (andE (cellIs b 0 2 player) (andE (cellIs b 1 1 player) (cellIs b 2 0 player)))
         (andE (cellIs b 0 0 player) (andE (cellIs b 1 1 player) (cellIs b 2 2 player)))"

definition checkSmallBoardWin :: "SmallBoard \<Rightarrow> Sign \<Rightarrow> error + bool" where
  "checkSmallBoardWin b player =
     bindE (winLoop b player [0..<boardRowQuantity])
       (\<lambda>found. if found then Inr True else diagonals b player)"

text \<open>\<^verbatim>\<open>checkWin\<close> has the same body as \<^verbatim>\<open>checkSmallBoardWin\<close> in the source.\<close>

definition checkWin :: "SmallBoard \<Rightarrow> Sign \<Rightarrow> error + bool" where
  "checkWin winBoard player =
     bindE (winLoop winBoard player [0..<boardRowQuantity])
       (\<lambda>found. if found then Inr True else diagonals winBoard player)"

text \<open>\<^verbatim>\<open>canMoveToSmallBoard\<close>: the two \<^verbatim>\<open>reduce\<close> calls count the empty cells; the
  conjunction is short-circuit, left to right.\<close>

definition canMoveToSmallBoard :: "SmallBoard \<Rightarrow> error + bool" where
  "canMoveToSmallBoard b =
     (let emptyCells =
            fold (\<lambda>rw acc. acc + fold (\<lambda>c acc'. acc' + (if c = SignEmpty then 1 else 0)) rw 0)
                 b (0::nat)
      in andE (Inr (emptyCells > 0))
           (andE (bindE (checkSmallBoardWin b SignX) (\<lambda>w. Inr (\<not> w)))
                 (bindE (checkSmallBoardWin b SignO) (\<lambda>w. Inr (\<not> w)))))"

text \<open>
  \<^verbatim>\<open>getWinnerBoard\<close>: starts from an empty 3x3 grid and, for every index of the main
  board, writes \<^verbatim>\<open>winBoard[y][x]\<close> with \<open>x = i % 3\<close> and \<open>y = floor(i / 3)\<close>. A main board
  with an undefined element makes \<^verbatim>\<open>checkSmallBoardWin\<close> raise.
\<close>

definition checkSmallBoardWinAt :: "Board \<Rightarrow> rat \<Rightarrow> Sign \<Rightarrow> error + bool" where
  "checkSmallBoardWinAt b i player =
     (case elemAt b i of None \<Rightarrow> Inl TypeError | Some sb \<Rightarrow> checkSmallBoardWin sb player)"

fun winnerLoop :: "Board \<Rightarrow> nat list \<Rightarrow> SmallBoard \<Rightarrow> error + SmallBoard" where
  "winnerLoop b [] winBoard = Inr winBoard"
| "winnerLoop b (i # rest) winBoard =
     (let x = i mod 3; y = i div 3 in
      bindE (checkSmallBoardWinAt b (of_nat i) SignX) (\<lambda>wx.
        if wx then bindE (writeGrid winBoard (of_nat y) (of_nat x) SignX) (winnerLoop b rest)
        else bindE (checkSmallBoardWinAt b (of_nat i) SignO) (\<lambda>wo.
          if wo then bindE (writeGrid winBoard (of_nat y) (of_nat x) SignO) (winnerLoop b rest)
          else winnerLoop b rest winBoard)))"

definition getWinnerBoard :: "Board \<Rightarrow> error + SmallBoard" where
  "getWinnerBoard b = winnerLoop b [0..<length b] getEmptySmallBoard"

text \<open>
  \<^verbatim>\<open>checkTie\<close>: two nested loops that return \<open>false\<close> at the first cell that is empty
  and whose flat index is among the empty-cell indexes. \<open>Inr True\<close> from a loop means it
  ran to its end; \<open>Inr False\<close> is the early \<^verbatim>\<open>return false\<close>.
\<close>

fun tieLoopJ :: "SmallBoard \<Rightarrow> nat \<Rightarrow> nat list \<Rightarrow> error + bool" where
  "tieLoopJ winnerBoard i [] = Inr True"
| "tieLoopJ winnerBoard i (j # rest) =
     bindE (andE (cellIs winnerBoard (of_nat i) (of_nat j) SignEmpty)
                 (Inr (i * 3 + j \<in> set (getEmptyCellIndexes winnerBoard))))
       (\<lambda>hit. if hit then Inr False else tieLoopJ winnerBoard i rest)"

fun tieLoopI :: "SmallBoard \<Rightarrow> nat list \<Rightarrow> error + bool" where
  "tieLoopI winnerBoard [] = Inr True"
| "tieLoopI winnerBoard (i # rest) =
     bindE (tieLoopJ winnerBoard i [0..<boardRowQuantity])
       (\<lambda>through. if through then tieLoopI winnerBoard rest else Inr False)"

definition checkTie :: "SmallBoard \<Rightarrow> error + bool" where
  "checkTie winnerBoard = tieLoopI winnerBoard [0..<boardRowQuantity]"

text \<open>\<^verbatim>\<open>getNextBoardIndex\<close>: \<^verbatim>\<open>board[index]\<close> undefined makes the first win check raise.\<close>

definition getNextBoardIndex :: "Board \<Rightarrow> rat \<Rightarrow> rat \<Rightarrow> error + CurrentBoardIndex" where
  "getNextBoardIndex b r c =
     (let index = r * 3 + c in
      bindE (orE (checkSmallBoardWinAt b index SignX)
              (orE (checkSmallBoardWinAt b index SignO)
                   (case elemAt b index of
                      None \<Rightarrow> Inl TypeError
                    | Some sb \<Rightarrow> Inr (length (getEmptyCellIndexes sb) = 0))))
        (\<lambda>closed. if closed then Inr None else Inr (Some index)))"

text \<open>
  \<^verbatim>\<open>isValidMove\<close>: the four constants are computed in source order, so
  \<^verbatim>\<open>board[smallBoardIndex][row][col]\<close> raises first when \<^verbatim>\<open>board[smallBoardIndex]\<close> or
  \<^verbatim>\<open>board[smallBoardIndex][row]\<close> is undefined; an undefined cell only makes \<open>freeCell\<close>
  false.
\<close>

definition isValidMove ::
  "rat \<Rightarrow> rat \<Rightarrow> rat \<Rightarrow> bool \<Rightarrow> Board \<Rightarrow> CurrentBoardIndex \<Rightarrow> Sign \<Rightarrow> Sign \<Rightarrow> error + bool" where
  "isValidMove smallBoardIndex r c over b cur turn player =
     (case elemAt b smallBoardIndex of
        None \<Rightarrow> Inl TypeError
      | Some sb \<Rightarrow>
          bindE (cellIs sb r c SignEmpty) (\<lambda>freeCell.
            let validBoardIndex = (cur = None \<or> Some smallBoardIndex = cur) in
            bindE (canMoveToSmallBoard sb) (\<lambda>validBoard.
              let validPlayer = (turn = player) in
              Inr (freeCell \<and> validBoardIndex \<and> validBoard \<and> validPlayer \<and> \<not> over))))"

section \<open>The room registry and the socket handlers\<close>

text \<open>\<^verbatim>\<open>let games = new Map<string, Game>()\<close>.\<close>

type_synonym Games = "string \<rightharpoonup> Game"

text \<open>
  What a handler sends: \<^verbatim>\<open>socket.emit\<close> and \<^verbatim>\<open>io.to(id).emit\<close> address one socket,
  \<^verbatim>\<open>io.to(roomCode).emit\<close> addresses a room. The payload fields are in source order:
  \<open>StartGame roomCode board currentPlayer currentBoard player\<close>,
  \<open>MoveMade roomCode board currentPlayer currentBoard winner isTie gameOver\<close>,
  \<open>GameRestarted roomCode board currentPlayer currentBoard gameOver winner isTie\<close>.
\<close>

datatype recipient = ToSocket string | ToRoom string

datatype message =
    RoomCreated string
  | ErrorMessage string
  | StartGame string Board Sign CurrentBoardIndex Sign
  | MoveMade string Board Sign CurrentBoardIndex "Sign option" bool bool
  | GameRestarted string Board Sign CurrentBoardIndex bool "Sign option" bool

text \<open>
  The effect of running a handler: the state it leaves (\<open>after\<close>), the messages it sent
  in order (\<open>emitted\<close>), and the exception that ended it, if any (\<open>raised\<close>). A handler
  that raises keeps every mutation it made before the raise.
\<close>

record 'a result =
  after :: 'a
  emitted :: "(recipient \<times> message) list"
  raised :: "error option"

definition reply :: "'a \<Rightarrow> string \<Rightarrow> string \<Rightarrow> 'a result" where
  "reply st socketId text =
     \<lparr>after = st, emitted = [(ToSocket socketId, ErrorMessage text)], raised = None\<rparr>"

text \<open>The object literal of \<^verbatim>\<open>create-room\<close>, then the \<^verbatim>\<open>push\<close> of the creator as \<^verbatim>\<open>'X'\<close>.
  The room code comes from \<^verbatim>\<open>generateId(5)\<close>, which draws on \<^verbatim>\<open>Math.random\<close>; it is a
  parameter here. An existing room under the same code is overwritten.\<close>

definition newGame :: Game where
  "newGame = \<lparr>players = [], board = getDefaultBoard, currentPlayer = SignX,
              currentBoard = None, gameOver = False, winner = None, isTie = False\<rparr>"

definition create_room :: "Games \<Rightarrow> string \<Rightarrow> string \<Rightarrow> Games result" where
  "create_room games socketId roomCode =
     (let game = newGame;
          game' = game\<lparr>players := players game @ [\<lparr>player_id = socketId, sign = SignX\<rparr>]\<rparr>
      in \<lparr>after = games(roomCode \<mapsto> game'),
          emitted = [(ToSocket socketId, RoomCreated roomCode)], raised = None\<rparr>)"

text \<open>\<^verbatim>\<open>join-room\<close> on a game that was found. \<^verbatim>\<open>const [playerX, playerO] = players\<close> leaves
  \<open>playerO\<close> undefined when there is one player only, and \<^verbatim>\<open>playerO.id\<close> raises after the
  first message has gone out.\<close>

definition join_room_on :: "Game \<Rightarrow> string \<Rightarrow> string \<Rightarrow> Game result" where
  "join_room_on game socketId roomCode =
     (if length (players game) \<ge> 2 then reply game socketId ''Room is full!''
      else
        let game' = game\<lparr>players := players game @ [\<lparr>player_id = socketId, sign = SignO\<rparr>]\<rparr> in
        (case nth_opt (players game') 0 of
           None \<Rightarrow> \<lparr>after = game', emitted = [], raised = Some TypeError\<rparr>
         | Some playerX \<Rightarrow>
             let m1 = (ToSocket (player_id playerX),
                       StartGame roomCode (board game') (currentPlayer game')
                         (currentBoard game') (sign playerX)) in
             (case nth_opt (players game') 1 of
                None \<Rightarrow> \<lparr>after = game', emitted = [m1], raised = Some TypeError\<rparr>
              | Some playerO \<Rightarrow>
                  \<lparr>after = game',
                   emitted = [m1, (ToSocket (player_id playerO),
                                   StartGame roomCode (board game') (currentPlayer game')
                                     (currentBoard game') (sign playerO))],
                   raised = None\<rparr>)))"

definition join_room :: "Games \<Rightarrow> string \<Rightarrow> string \<Rightarrow> Games result" where
  "join_room games socketId roomCode =
     (case games roomCode of
        None \<Rightarrow> reply games socketId ''Room not found!''
      | Some game \<Rightarrow>
          (let r = join_room_on game socketId roomCode in
           \<lparr>after = games(roomCode \<mapsto> after r), emitted = emitted r, raised = raised r\<rparr>))"

text \<open>
  \<^verbatim>\<open>make-move\<close>, lines 148 to 152 of the source: the game is over when a winner or a tie
  is recorded, otherwise the next active board is computed from the row and the cell of
  the move.
\<close>

definition closeOrAdvance :: "Game \<Rightarrow> Position \<Rightarrow> Game \<times> error option" where
  "closeOrAdvance game position =
     (if winner game \<noteq> None \<or> isTie game then (game\<lparr>gameOver := True\<rparr>, None)
      else (case getNextBoardIndex (board game) (row position) (cell position) of
              Inl e \<Rightarrow> (game, Some e)
            | Inr n \<Rightarrow> (game\<lparr>currentBoard := n\<rparr>, None)))"

text \<open>
  \<^verbatim>\<open>make-move\<close>, lines 137 to 152: write the sign, recompute the winner board, record a
  win, else a tie, else pass the turn. The second component is the exception that stops
  the handler; the first is the game as mutated up to that point.
\<close>

definition applyMove :: "Game \<Rightarrow> Sign \<Rightarrow> Position \<Rightarrow> Game \<times> error option" where
  "applyMove game me position =
     (case writeCell (board game) (smallBoard position) (row position) (cell position) me of
        Inl e \<Rightarrow> (game, Some e)
      | Inr b' \<Rightarrow>
          (let game1 = game\<lparr>board := b'\<rparr> in
           case getWinnerBoard b' of
             Inl e \<Rightarrow> (game1, Some e)
           | Inr winBoard \<Rightarrow>
               (case checkWin winBoard me of
                  Inl e \<Rightarrow> (game1, Some e)
                | Inr True \<Rightarrow> closeOrAdvance (game1\<lparr>winner := Some me\<rparr>) position
                | Inr False \<Rightarrow>
                    (case checkTie winBoard of
                       Inl e \<Rightarrow> (game1, Some e)
                     | Inr True \<Rightarrow> closeOrAdvance (game1\<lparr>isTie := True\<rparr>) position
                     | Inr False \<Rightarrow>
                         closeOrAdvance
                           (game1\<lparr>currentPlayer := (if me = SignX then SignO else SignX)\<rparr>)
                           position))))"

definition moveMade :: "string \<Rightarrow> Game \<Rightarrow> message" where
  "moveMade roomCode game =
     MoveMade roomCode (board game) (currentPlayer game) (currentBoard game)
       (winner game) (isTie game) (gameOver game)"

text \<open>
  \<^verbatim>\<open>make-move\<close> on a game that was found. \<^verbatim>\<open>find(...)?.sign\<close> is undefined when no player
  has the socket's id, and \<^verbatim>\<open>!currentPlayer\<close> is also true for the empty sign.
\<close>

definition make_move_on :: "Game \<Rightarrow> string \<Rightarrow> string \<Rightarrow> Position \<Rightarrow> Game result" where
  "make_move_on game socketId roomCode position =
     (case find (\<lambda>p. player_id p = socketId) (players game) of
        None \<Rightarrow> reply game socketId ''Player not found!''
      | Some p \<Rightarrow>
          (let me = sign p in
           if me = SignEmpty then reply game socketId ''Player not found!''
           else if me \<noteq> currentPlayer game then reply game socketId ''Not your turn!''
           else
             (case isValidMove (smallBoard position) (row position) (cell position)
                     (gameOver game) (board game) (currentBoard game) (currentPlayer game) me of
                Inl e \<Rightarrow> \<lparr>after = game, emitted = [], raised = Some e\<rparr>
              | Inr False \<Rightarrow> reply game socketId ''Invalid move!''
              | Inr True \<Rightarrow>
                  (case applyMove game me position of
                     (game', Some e) \<Rightarrow> \<lparr>after = game', emitted = [], raised = Some e\<rparr>
                   | (game', None) \<Rightarrow>
                       \<lparr>after = game', emitted = [(ToRoom roomCode, moveMade roomCode game')],
                        raised = None\<rparr>))))"

definition make_move :: "Games \<Rightarrow> string \<Rightarrow> string \<Rightarrow> Position \<Rightarrow> Games result" where
  "make_move games socketId roomCode position =
     (case games roomCode of
        None \<Rightarrow> reply games socketId ''Room not found!''
      | Some game \<Rightarrow>
          (let r = make_move_on game socketId roomCode position in
           \<lparr>after = games(roomCode \<mapsto> after r), emitted = emitted r, raised = raised r\<rparr>))"

text \<open>\<^verbatim>\<open>restart-game\<close>: nothing at all happens unless the game exists and is over.\<close>

definition restart_game_on :: "Game \<Rightarrow> string \<Rightarrow> Game result" where
  "restart_game_on game roomCode =
     (if gameOver game then
        (let game' = game\<lparr>board := getDefaultBoard, currentPlayer := SignX, currentBoard := None,
                          gameOver := False, winner := None, isTie := False\<rparr> in
         \<lparr>after = game',
          emitted = [(ToRoom roomCode,
                      GameRestarted roomCode (board game') (currentPlayer game')
                        (currentBoard game') (gameOver game') (winner game') (isTie game'))],
          raised = None\<rparr>)
      else \<lparr>after = game, emitted = [], raised = None\<rparr>)"

definition restart_game :: "Games \<Rightarrow> string \<Rightarrow> Games result" where
  "restart_game games roomCode =
     (case games roomCode of
        None \<Rightarrow> \<lparr>after = games, emitted = [], raised = None\<rparr>
      | Some game \<Rightarrow>
          (let r = restart_game_on game roomCode in
           \<lparr>after = games(roomCode \<mapsto> after r), emitted = emitted r, raised = raised r\<rparr>))"

text \<open>The games that the handlers can produce: the one \<^verbatim>\<open>create-room\<close> stores, and
  whatever \<^verbatim>\<open>join-room\<close>, \<^verbatim>\<open>make-move\<close> and \<^verbatim>\<open>restart-game\<close> leave behind, for any
  socket, room code and position a client may send.\<close>

inductive reachable :: "Game \<Rightarrow> bool" where
  created: "after (create_room games socketId roomCode) roomCode = Some game \<Longrightarrow> reachable game"
| joined: "reachable game \<Longrightarrow> reachable (after (join_room_on game socketId roomCode))"
| moved: "reachable game \<Longrightarrow> reachable (after (make_move_on game socketId roomCode position))"
| restarted: "reachable game \<Longrightarrow> reachable (after (restart_game_on game roomCode))"

section \<open>Vocabulary of the specification\<close>

text \<open>The shapes the handlers maintain: a small board is 3x3, the main board has nine.\<close>

definition wf_small :: "SmallBoard \<Rightarrow> bool" where
  "wf_small g = (length g = 3 \<and> list_all (\<lambda>rw. length rw = 3) g)"

definition wf_board :: "Board \<Rightarrow> bool" where
  "wf_board b = (length b = 9 \<and> list_all wf_small b)"

text \<open>
  The specification's \<open>smallBoardWinner\<close>, written from its words and not from the code:
  true if any of the 3 rows, 3 columns, or 2 diagonals are entirely the mark. Each line is
  a list of (row, column) positions.
\<close>

definition winning_lines :: "(nat \<times> nat) list list" where
  "winning_lines =
     [[(0,0),(0,1),(0,2)], [(1,0),(1,1),(1,2)], [(2,0),(2,1),(2,2)],
      [(0,0),(1,0),(2,0)], [(0,1),(1,1),(2,1)], [(0,2),(1,2),(2,2)],
      [(0,0),(1,1),(2,2)], [(0,2),(1,1),(2,0)]]"

definition three_in_a_row :: "SmallBoard \<Rightarrow> Sign \<Rightarrow> bool" where
  "three_in_a_row g m = list_ex (list_all (\<lambda>(r, c). g ! r ! c = m)) winning_lines"

text \<open>A board is undecided when neither mark has three in a row; it has an empty cell
  when some row holds the empty sign.\<close>

definition undecided :: "SmallBoard \<Rightarrow> bool" where
  "undecided g = (\<not> three_in_a_row g SignX \<and> \<not> three_in_a_row g SignO)"

definition has_empty_cell :: "SmallBoard \<Rightarrow> bool" where
  "has_empty_cell g = list_ex (\<lambda>rw. SignEmpty \<in> set rw) g"

text \<open>The mark a small board shows on the winner board: \<^verbatim>\<open>'X'\<close> is tested first.\<close>

definition winnerOf :: "SmallBoard \<Rightarrow> Sign" where
  "winnerOf g = (if three_in_a_row g SignX then SignX
                 else if three_in_a_row g SignO then SignO else SignEmpty)"

section \<open>Example positions\<close>

text \<open>A full small board that nobody has won, and one whose top row belongs to \<^verbatim>\<open>'X'\<close>.\<close>

definition drawnSmallBoard :: SmallBoard where
  "drawnSmallBoard =
     [[SignX, SignO, SignX],
      [SignX, SignO, SignO],
      [SignO, SignX, SignX]]"

definition topRowX :: SmallBoard where
  "topRowX =
     [[SignX, SignX, SignX],
      [SignO, SignO, SignEmpty],
      [SignEmpty, SignEmpty, SignEmpty]]"

text \<open>Games used as concrete inputs: a fresh game with both seats taken.\<close>

definition twoPlayers :: "Player list" where
  "twoPlayers = [\<lparr>player_id = ''s1'', sign = SignX\<rparr>, \<lparr>player_id = ''s2'', sign = SignO\<rparr>]"

definition openingGame :: Game where
  "openingGame = newGame\<lparr>players := twoPlayers\<rparr>"

text \<open>A complete legal game: sixteen moves after which \<^verbatim>\<open>'X'\<close> has won small boards 0
  and 1 and holds two cells of the middle row of small board 2, then the move that wins.\<close>

definition exampleMoves :: "(string \<times> Position) list" where
  "exampleMoves =
     [(''s1'', \<lparr>smallBoard = 0, row = 1, cell = 0\<rparr>), (''s2'', \<lparr>smallBoard = 3, row = 0, cell = 0\<rparr>),
      (''s1'', \<lparr>smallBoard = 0, row = 1, cell = 1\<rparr>), (''s2'', \<lparr>smallBoard = 4, row = 0, cell = 0\<rparr>),
      (''s1'', \<lparr>smallBoard = 0, row = 1, cell = 2\<rparr>), (''s2'', \<lparr>smallBoard = 5, row = 0, cell = 1\<rparr>),
      (''s1'', \<lparr>smallBoard = 1, row = 2, cell = 0\<rparr>), (''s2'', \<lparr>smallBoard = 6, row = 0, cell = 1\<rparr>),
      (''s1'', \<lparr>smallBoard = 1, row = 2, cell = 1\<rparr>), (''s2'', \<lparr>smallBoard = 7, row = 0, cell = 1\<rparr>),
      (''s1'', \<lparr>smallBoard = 1, row = 2, cell = 2\<rparr>), (''s2'', \<lparr>smallBoard = 8, row = 0, cell = 2\<rparr>),
      (''s1'', \<lparr>smallBoard = 2, row = 1, cell = 0\<rparr>), (''s2'', \<lparr>smallBoard = 3, row = 0, cell = 2\<rparr>),
      (''s1'', \<lparr>smallBoard = 2, row = 1, cell = 1\<rparr>), (''s2'', \<lparr>smallBoard = 4, row = 0, cell = 2\<rparr>)]"

fun playMoves :: "Game \<Rightarrow> (string \<times> Position) list \<Rightarrow> Game" where
  "playMoves game [] = game"
| "playMoves game ((socketId, position) # rest) =
     playMoves (after (make_move_on game socketId ''ROOM1'' position)) rest"

definition beforeWinGame :: Game where
  "beforeWinGame = playMoves openingGame exampleMoves"

definition winningMove :: Position where
  "winningMove = \<lparr>smallBoard = 2, row = 1, cell = 2\<rparr>"

definition wonGame :: Game where
  "wonGame = after (make_move_on beforeWinGame ''s1'' ''ROOM1'' winningMove)"

text \<open>Two moves that the position before the win does not allow, a move whose row is
  within the bounds but is not an integer, and two registries.\<close>

definition wrongBoardMove :: Position where
  "wrongBoardMove = \<lparr>smallBoard = 3, row = 1, cell = 1\<rparr>"

definition halfRowMove :: Position where
  "halfRowMove = \<lparr>smallBoard = 0, row = 3 / 2, cell = 0\<rparr>"

definition outOfRangeMove :: Position where
  "outOfRangeMove = \<lparr>smallBoard = 9, row = 0, cell = 0\<rparr>"

definition oneRoom :: Games where
  "oneRoom = Map.empty(''ROOM1'' \<mapsto> beforeWinGame)"

definition finishedRoom :: Games where
  "finishedRoom = Map.empty(''ROOM1'' \<mapsto> wonGame)"

section \<open>The board functions on well-formed boards\<close>

lemma upt3: "[0..<boardRowQuantity] = [0, 1, 2]"
  by (simp add: boardRowQuantity_def upt_rec)

lemma length3E: "length xs = 3 \<Longrightarrow> \<exists>a b c. xs = [a, b, c]"
  by (cases xs; simp; cases "tl xs"; simp; cases "tl (tl xs)"; auto)

lemma wf_smallE:
  assumes "wf_small g"
  obtains a0 a1 a2 b0 b1 b2 c0 c1 c2 where "g = [[a0, a1, a2], [b0, b1, b2], [c0, c1, c2]]"
proof -
  from assms have l: "length g = 3" and r: "list_all (\<lambda>rw. length rw = 3) g"
    by (simp_all add: wf_small_def)
  from length3E[OF l] obtain x y z where g: "g = [x, y, z]" by blast
  with r have "length x = 3" "length y = 3" "length z = 3" by simp_all
  with g that show thesis by (metis length3E)
qed


lemma checkWin_eq: "checkWin g m = checkSmallBoardWin g m"
  by (simp add: checkWin_def checkSmallBoardWin_def)

lemma winLoop3:
  "winLoop [[a0, a1, a2], [b0, b1, b2], [c0, c1, c2]] m [0, 1, 2] =
     Inr ((a0 = m \<and> a1 = m \<and> a2 = m) \<or> (a0 = m \<and> b0 = m \<and> c0 = m) \<or>
          (b0 = m \<and> b1 = m \<and> b2 = m) \<or> (a1 = m \<and> b1 = m \<and> c1 = m) \<or>
          (c0 = m \<and> c1 = m \<and> c2 = m) \<or> (a2 = m \<and> b2 = m \<and> c2 = m))"
  by (simp add: nth_opt_def)

lemma diagonals3:
  "diagonals [[a0, a1, a2], [b0, b1, b2], [c0, c1, c2]] m =
     Inr ((a2 = m \<and> b1 = m \<and> c0 = m) \<or> (a0 = m \<and> b1 = m \<and> c2 = m))"
  by (simp add: diagonals_def bindE_def andE_def orE_def cellIs_def elemAt_def nth_opt_def)

lemma three_in_a_row3:
  "three_in_a_row [[a0, a1, a2], [b0, b1, b2], [c0, c1, c2]] m =
     ((a0 = m \<and> a1 = m \<and> a2 = m) \<or> (b0 = m \<and> b1 = m \<and> b2 = m) \<or>
      (c0 = m \<and> c1 = m \<and> c2 = m) \<or> (a0 = m \<and> b0 = m \<and> c0 = m) \<or>
      (a1 = m \<and> b1 = m \<and> c1 = m) \<or> (a2 = m \<and> b2 = m \<and> c2 = m) \<or>
      (a0 = m \<and> b1 = m \<and> c2 = m) \<or> (a2 = m \<and> b1 = m \<and> c0 = m))"
  by (simp add: three_in_a_row_def winning_lines_def)


lemma checkSmallBoardWin_wf:
  assumes "wf_small g"
  shows "checkSmallBoardWin g m = Inr (three_in_a_row g m)"
proof -
  from assms obtain a0 a1 a2 b0 b1 b2 c0 c1 c2
    where g: "g = [[a0, a1, a2], [b0, b1, b2], [c0, c1, c2]]" by (rule wf_smallE)
  show ?thesis
    unfolding g checkSmallBoardWin_def upt3 winLoop3 diagonals3 three_in_a_row3
    by (auto simp: bindE_def)
qed

lemma getEmptyCellIndexes3:
  "getEmptyCellIndexes [[a0, a1, a2], [b0, b1, b2], [c0, c1, c2]] =
     (if a0 = SignEmpty then [0] else []) @ (if a1 = SignEmpty then [1] else []) @
     (if a2 = SignEmpty then [2] else []) @ (if b0 = SignEmpty then [3] else []) @
     (if b1 = SignEmpty then [4] else []) @ (if b2 = SignEmpty then [5] else []) @
     (if c0 = SignEmpty then [6] else []) @ (if c1 = SignEmpty then [7] else []) @
     (if c2 = SignEmpty then [8] else [])"
  by (simp add: getEmptyCellIndexes_def boardRowQuantity_def)

lemma has_empty_cell3:
  "has_empty_cell [[a0, a1, a2], [b0, b1, b2], [c0, c1, c2]] =
     (a0 = SignEmpty \<or> a1 = SignEmpty \<or> a2 = SignEmpty \<or> b0 = SignEmpty \<or> b1 = SignEmpty \<or>
      b2 = SignEmpty \<or> c0 = SignEmpty \<or> c1 = SignEmpty \<or> c2 = SignEmpty)"
  by (auto simp: has_empty_cell_def)

lemma getEmptyCellIndexes_nil:
  assumes "wf_small g"
  shows "(getEmptyCellIndexes g = []) = (\<not> has_empty_cell g)"
proof -
  from assms obtain a0 a1 a2 b0 b1 b2 c0 c1 c2
    where g: "g = [[a0, a1, a2], [b0, b1, b2], [c0, c1, c2]]" by (rule wf_smallE)
  show ?thesis
    unfolding g getEmptyCellIndexes3 has_empty_cell3 by simp
qed

lemma canMoveToSmallBoard_wf:
  assumes "wf_small g"
  shows "canMoveToSmallBoard g = Inr (has_empty_cell g \<and> undecided g)"
proof -
  from assms obtain a0 a1 a2 b0 b1 b2 c0 c1 c2
    where g: "g = [[a0, a1, a2], [b0, b1, b2], [c0, c1, c2]]" by (rule wf_smallE)
  have cnt: "(0 < fold (\<lambda>rw acc. acc + fold (\<lambda>c acc'. acc' + (if c = SignEmpty then 1 else 0)) rw 0) g (0::nat))
      = has_empty_cell g"
    unfolding g has_empty_cell3 by simp
  show ?thesis
    unfolding canMoveToSmallBoard_def Let_def cnt checkSmallBoardWin_wf[OF assms] undecided_def
    by (simp add: bindE_def andE_def)
qed

lemma tieLoopJ3:
  assumes "i < 3"
  shows "tieLoopJ [[a0, a1, a2], [b0, b1, b2], [c0, c1, c2]] i [0..<boardRowQuantity] =
     Inr (SignEmpty \<notin> set ([[a0, a1, a2], [b0, b1, b2], [c0, c1, c2]] ! i))"
proof -
  from assms consider "i = 0" | "i = 1" | "i = 2" by linarith
  then show ?thesis
    unfolding upt3
    by cases (simp_all add: getEmptyCellIndexes3 bindE_def andE_def cellIs_def elemAt_def nth_opt_def)
qed

lemma tieLoopI3:
  "tieLoopI [[a0, a1, a2], [b0, b1, b2], [c0, c1, c2]] [0, 1, 2] =
     Inr (\<not> has_empty_cell [[a0, a1, a2], [b0, b1, b2], [c0, c1, c2]])"
  unfolding has_empty_cell3 by (auto simp: tieLoopJ3 bindE_def)

lemma checkTie_wf:
  assumes "wf_small g"
  shows "checkTie g = Inr (\<not> has_empty_cell g)"
proof -
  from assms obtain a0 a1 a2 b0 b1 b2 c0 c1 c2
    where g: "g = [[a0, a1, a2], [b0, b1, b2], [c0, c1, c2]]" by (rule wf_smallE)
  show ?thesis
    unfolding g checkTie_def by (simp only: upt3 tieLoopI3)
qed


lemma wf_small_empty: "wf_small getEmptySmallBoard"
  by (simp add: wf_small_def getEmptySmallBoard_def)

lemma pushSmallBoards_replicate:
  "pushSmallBoards xs b = b @ replicate (length xs) getEmptySmallBoard"
  by (induction xs arbitrary: b) (simp_all add: replicate_app_Cons_same)

lemma getDefaultBoard_replicate: "getDefaultBoard = replicate 9 getEmptySmallBoard"
  by (simp add: getDefaultBoard_def pushSmallBoards_replicate boardSize_def)

lemma wf_board_default: "wf_board getDefaultBoard"
  by (simp add: getDefaultBoard_replicate wf_board_def list_all_iff wf_small_empty)

lemma wf_board_nth: "wf_board b \<Longrightarrow> i < 9 \<Longrightarrow> wf_small (b ! i)"
  by (simp add: wf_board_def list_all_length)

lemma wf_small_row: "wf_small g \<Longrightarrow> i < 3 \<Longrightarrow> length (g ! i) = 3"
  by (simp add: wf_small_def list_all_length)

lemma elemAt_of_nat: "elemAt xs (of_nat n) = nth_opt xs n"
  by (simp add: elemAt_def)

lemma integral_iff: "(of_int \<lfloor>i\<rfloor> = (i::rat)) = (i \<in> \<int>)"
  unfolding of_int_floor_cancel Ints_def by auto

lemma index_as_nat:
  assumes "(i::rat) \<in> \<int>" "0 \<le> i"
  shows "of_nat (nat \<lfloor>i\<rfloor>) = i" and "(nat \<lfloor>i\<rfloor> < n) = (i < of_nat n)"
proof -
  from assms(1) obtain k :: int where k: "i = of_int k" by (auto elim: Ints_cases)
  with assms(2) have k0: "0 \<le> k" by simp
  then obtain m :: nat where m: "k = int m" by (auto dest: zero_le_imp_eq_int)
  show "of_nat (nat \<lfloor>i\<rfloor>) = i" by (simp add: k m)
  show "(nat \<lfloor>i\<rfloor> < n) = (i < of_nat n)" by (simp add: k m)
qed

lemma elemAt_eq:
  "elemAt xs i =
     (if i \<in> \<int> \<and> 0 \<le> i \<and> i < of_nat (length xs) then Some (xs ! nat \<lfloor>i\<rfloor>) else None)"
  unfolding elemAt_def nth_opt_def integral_iff
  using index_as_nat(2)[of i "length xs"] by auto

lemma writeGrid_wf:
  assumes "wf_small g" "y < 3" "x < 3"
  shows "writeGrid g (of_nat y) (of_nat x) v = Inr (g[y := (g ! y)[x := v]])"
    and "wf_small (g[y := (g ! y)[x := v]])"
proof -
  from assms have l: "length g = 3" and r: "length (g ! y) = 3"
    by (simp_all add: wf_small_def list_all_length)
  show "writeGrid g (of_nat y) (of_nat x) v = Inr (g[y := (g ! y)[x := v]])"
    using assms l r by (simp add: writeGrid_def elemAt_def nth_opt_def)
  show "wf_small (g[y := (g ! y)[x := v]])"
    using assms l r
    by (auto simp: wf_small_def list_all_length nth_list_update)
qed

lemma checkSmallBoardWinAt_wf:
  assumes "wf_board b" "i < 9"
  shows "checkSmallBoardWinAt b (of_nat i) m = Inr (three_in_a_row (b ! i) m)"
  using assms wf_board_nth[OF assms]
  by (simp add: checkSmallBoardWinAt_def elemAt_def nth_opt_def wf_board_def checkSmallBoardWin_wf)

lemma divmod3_inj:
  fixes i k :: nat
  shows "(k div 3 = i div 3 \<and> k mod 3 = i mod 3) = (k = i)"
  by (metis div_mult_mod_eq)

lemma winnerLoop_wf:
  assumes "wf_board b"
  shows "wf_small wb \<Longrightarrow> set xs \<subseteq> {0..<9} \<Longrightarrow>
    \<exists>wb'. winnerLoop b xs wb = Inr wb' \<and> wf_small wb' \<and>
      (\<forall>k<9. wb' ! (k div 3) ! (k mod 3) =
         (if k \<in> set xs \<and> winnerOf (b ! k) \<noteq> SignEmpty then winnerOf (b ! k)
          else wb ! (k div 3) ! (k mod 3)))"
proof (induction xs arbitrary: wb)
  case Nil
  then show ?case by simp
next
  case (Cons i rest)
  then have i: "i < 9" and rest: "set rest \<subseteq> {0..<9}" by simp_all
  have yx: "i div 3 < 3" "i mod 3 < 3" using i by simp_all
  let ?w = "wb[i div 3 := (wb ! (i div 3))[i mod 3 := winnerOf (b ! i)]]"
  have upd: "\<And>k. k < 9 \<Longrightarrow> ?w ! (k div 3) ! (k mod 3) =
      (if k = i then winnerOf (b ! i) else wb ! (k div 3) ! (k mod 3))"
  proof -
    fix k :: nat assume k: "k < 9"
    have lw: "length wb = 3" using Cons.prems(1) by (simp add: wf_small_def)
    have lr: "length (wb ! (i div 3)) = 3" using wf_small_row[OF Cons.prems(1) yx(1)] .
    have kd: "k div 3 < 3" using k by simp
    show "?w ! (k div 3) ! (k mod 3) =
      (if k = i then winnerOf (b ! i) else wb ! (k div 3) ! (k mod 3))"
    proof (cases "k = i")
      case True
      then show ?thesis using lw lr yx by simp
    next
      case False
      then have "k div 3 \<noteq> i div 3 \<or> k mod 3 \<noteq> i mod 3"
        using divmod3_inj[of k i] by blast
      then show ?thesis using False lw lr kd yx by (auto simp: nth_list_update)
    qed
  qed
  show ?case
  proof (cases "winnerOf (b ! i) = SignEmpty")
    case True
    then have step: "winnerLoop b (i # rest) wb = winnerLoop b rest wb"
      using checkSmallBoardWinAt_wf[OF assms i]
      by (simp add: bindE_def winnerOf_def split: if_splits)
    from Cons.IH[OF Cons.prems(1) rest] obtain wb' where
      r: "winnerLoop b rest wb = Inr wb'" "wf_small wb'"
         "\<forall>k<9. wb' ! (k div 3) ! (k mod 3) =
           (if k \<in> set rest \<and> winnerOf (b ! k) \<noteq> SignEmpty then winnerOf (b ! k)
            else wb ! (k div 3) ! (k mod 3))" by blast
    show ?thesis
      unfolding step using r True by auto
  next
    case False
    have step: "winnerLoop b (i # rest) wb = winnerLoop b rest ?w"
      using checkSmallBoardWinAt_wf[OF assms i] False
        writeGrid_wf(1)[OF Cons.prems(1) yx]
      by (simp add: bindE_def winnerOf_def split: if_splits)
    have wfw: "wf_small ?w" by (rule writeGrid_wf(2)[OF Cons.prems(1) yx])
    from Cons.IH[OF wfw rest] obtain wb' where
      r: "winnerLoop b rest ?w = Inr wb'" "wf_small wb'"
         "\<forall>k<9. wb' ! (k div 3) ! (k mod 3) =
           (if k \<in> set rest \<and> winnerOf (b ! k) \<noteq> SignEmpty then winnerOf (b ! k)
            else ?w ! (k div 3) ! (k mod 3))" by blast
    show ?thesis
      unfolding step using r upd False by auto
  qed
qed

lemma getWinnerBoard_wf:
  assumes "wf_board b"
  shows "\<exists>wb. getWinnerBoard b = Inr wb \<and> wf_small wb \<and>
           (\<forall>k<9. wb ! (k div 3) ! (k mod 3) = winnerOf (b ! k))"
proof -
  have len: "length b = 9" using assms by (simp add: wf_board_def)
  have e: "\<And>k. k < 9 \<Longrightarrow> getEmptySmallBoard ! (k div 3) ! (k mod 3) = SignEmpty"
  proof -
    fix k :: nat assume "k < 9"
    then have "k div 3 < 3" "k mod 3 < 3" by simp_all
    then have "k div 3 \<in> {0, 1, 2}" "k mod 3 \<in> {0, 1, 2}" by auto
    then show "getEmptySmallBoard ! (k div 3) ! (k mod 3) = SignEmpty"
      by (auto simp: getEmptySmallBoard_def)
  qed
  from winnerLoop_wf[OF assms wf_small_empty, of "[0..<9]"] obtain wb' where
    r: "winnerLoop b [0..<9] getEmptySmallBoard = Inr wb'" "wf_small wb'"
       "\<forall>k<9. wb' ! (k div 3) ! (k mod 3) =
         (if k \<in> set [0..<9] \<and> winnerOf (b ! k) \<noteq> SignEmpty then winnerOf (b ! k)
          else getEmptySmallBoard ! (k div 3) ! (k mod 3))" by auto
  show ?thesis
    unfolding getWinnerBoard_def len using r e by auto
qed

lemma elemAt_wf_board:
  assumes "wf_board b"
  shows "elemAt b s =
           (if s \<in> \<int> \<and> 0 \<le> s \<and> s < 9 then Some (b ! nat \<lfloor>s\<rfloor>) else None)"
  using assms by (simp add: elemAt_eq wf_board_def)

lemma elemAt_wf_small:
  assumes "wf_small g"
  shows "elemAt g r =
           (if r \<in> \<int> \<and> 0 \<le> r \<and> r < 3 then Some (g ! nat \<lfloor>r\<rfloor>) else None)"
  using assms by (simp add: elemAt_eq wf_small_def)

lemma index_lt:
  assumes "(i::rat) \<in> \<int>" "0 \<le> i" "i < of_nat n"
  shows "nat \<lfloor>i\<rfloor> < n"
  using index_as_nat(2)[OF assms(1,2), of n] assms(3) by simp

lemma index_lt9: "(i::rat) \<in> \<int> \<Longrightarrow> 0 \<le> i \<Longrightarrow> i < 9 \<Longrightarrow> nat \<lfloor>i\<rfloor> < 9"
  using index_lt[of i 9] by simp

lemma index_lt3: "(i::rat) \<in> \<int> \<Longrightarrow> 0 \<le> i \<Longrightarrow> i < 3 \<Longrightarrow> nat \<lfloor>i\<rfloor> < 3"
  using index_lt[of i 3] by simp

lemma elemAt_wf_row:
  assumes "wf_small g" "(r::rat) \<in> \<int>" "0 \<le> r" "r < 3"
  shows "elemAt (g ! nat \<lfloor>r\<rfloor>) c =
           (if c \<in> \<int> \<and> 0 \<le> c \<and> c < 3 then Some (g ! nat \<lfloor>r\<rfloor> ! nat \<lfloor>c\<rfloor>) else None)"
proof -
  have "length (g ! nat \<lfloor>r\<rfloor>) = 3"
    using assms(1) index_lt3[OF assms(2-4)] by (simp add: wf_small_row)
  then show ?thesis by (simp add: elemAt_eq)
qed

lemma isValidMove_wf:
  assumes "wf_board b"
  shows "isValidMove s r c over b cur turn player =
     (if s \<in> \<int> \<and> 0 \<le> s \<and> s < 9 \<and> r \<in> \<int> \<and> 0 \<le> r \<and> r < 3
      then Inr (c \<in> \<int> \<and> 0 \<le> c \<and> c < 3 \<and>
                b ! nat \<lfloor>s\<rfloor> ! nat \<lfloor>r\<rfloor> ! nat \<lfloor>c\<rfloor> = SignEmpty \<and>
                (cur = None \<or> cur = Some s) \<and>
                has_empty_cell (b ! nat \<lfloor>s\<rfloor>) \<and> undecided (b ! nat \<lfloor>s\<rfloor>) \<and>
                turn = player \<and> \<not> over)
      else Inl TypeError)"
proof (cases "s \<in> \<int> \<and> 0 \<le> s \<and> s < 9")
  case False
  then show ?thesis by (auto simp: isValidMove_def elemAt_wf_board[OF assms])
next
  case True
  then have "nat \<lfloor>s\<rfloor> < 9" by (simp add: index_lt9)
  then have wfs: "wf_small (b ! nat \<lfloor>s\<rfloor>)" by (rule wf_board_nth[OF assms])
  show ?thesis
  proof (cases "r \<in> \<int> \<and> 0 \<le> r \<and> r < 3")
    case False
    then show ?thesis using True
      by (auto simp: isValidMove_def elemAt_wf_board[OF assms] cellIs_def
            elemAt_wf_small[OF wfs] bindE_def)
  next
    case r: True
    then show ?thesis using True elemAt_wf_row[OF wfs, of r c]
      by (auto simp: isValidMove_def elemAt_wf_board[OF assms] cellIs_def
            elemAt_wf_small[OF wfs] bindE_def canMoveToSmallBoard_wf[OF wfs])
  qed
qed

lemma has_empty_cell_nth:
  assumes "wf_small g"
  shows "has_empty_cell g = (\<exists>r<3. \<exists>c<3. g ! r ! c = SignEmpty)"
proof -
  from assms obtain a0 a1 a2 b0 b1 b2 c0 c1 c2
    where g: "g = [[a0, a1, a2], [b0, b1, b2], [c0, c1, c2]]" by (rule wf_smallE)
  have three: "\<And>P. (\<exists>n<3. P n) = (P (0::nat) \<or> P 1 \<or> P 2)"
  proof -
    fix P :: "nat \<Rightarrow> bool"
    have "\<And>n::nat. n < 3 \<longleftrightarrow> n = 0 \<or> n = 1 \<or> n = 2" by auto
    then show "(\<exists>n<3. P n) = (P (0::nat) \<or> P 1 \<or> P 2)" by auto
  qed
  show ?thesis unfolding g has_empty_cell3 three by auto
qed

lemma has_empty_cell_flat:
  assumes "wf_small g"
  shows "has_empty_cell g = (\<exists>k<9. g ! (k div 3) ! (k mod 3) = SignEmpty)"
proof
  assume "has_empty_cell g"
  then obtain r c where rc: "r < 3" "c < 3" "g ! r ! c = SignEmpty"
    using has_empty_cell_nth[OF assms] by blast
  then have "r * 3 + c < 9" "(r * 3 + c) div 3 = r" "(r * 3 + c) mod 3 = c" by simp_all
  with rc show "\<exists>k<9. g ! (k div 3) ! (k mod 3) = SignEmpty" by metis
next
  assume "\<exists>k<9. g ! (k div 3) ! (k mod 3) = SignEmpty"
  then obtain k where k: "k < 9" "g ! (k div 3) ! (k mod 3) = SignEmpty" by blast
  then have "k div 3 < 3" "k mod 3 < 3" by simp_all
  with k show "has_empty_cell g" using has_empty_cell_nth[OF assms] by blast
qed

lemma winnerOf_empty: "(winnerOf g = SignEmpty) = undecided g"
  by (simp add: winnerOf_def undecided_def)

lemma wf_small_drawn: "wf_small drawnSmallBoard"
  by (simp add: wf_small_def drawnSmallBoard_def)

lemma wf_board_replicate: "wf_small g \<Longrightarrow> wf_board (replicate 9 g)"
  by (simp add: wf_board_def list_all_iff)

lemma drawn_facts: "undecided drawnSmallBoard" "\<not> has_empty_cell drawnSmallBoard"
  by (simp_all add: undecided_def drawnSmallBoard_def three_in_a_row3 has_empty_cell3)

section \<open>The handlers on well-formed boards\<close>

lemma wf_board_update:
  assumes "wf_board b" "wf_small g"
  shows "wf_board (b[i := g])"
proof (cases "i < length b")
  case True
  then show ?thesis using assms by (auto simp: wf_board_def list_all_length nth_list_update)
next
  case False
  then have "b[i := g] = b" by (simp add: list_update_beyond)
  then show ?thesis using assms by simp
qed

lemma writeCell_wf:
  assumes wf: "wf_board b" and s: "s \<in> \<int>" "0 \<le> s" "s < 9"
    and r: "r \<in> \<int>" "0 \<le> r" "r < 3" and c: "c \<in> \<int>" "0 \<le> c" "c < 3"
  shows "writeCell b s r c v =
           Inr (b[nat \<lfloor>s\<rfloor> := (b ! nat \<lfloor>s\<rfloor>)[nat \<lfloor>r\<rfloor> := (b ! nat \<lfloor>s\<rfloor> ! nat \<lfloor>r\<rfloor>)[nat \<lfloor>c\<rfloor> := v]]])"
    and "wf_board (b[nat \<lfloor>s\<rfloor> := (b ! nat \<lfloor>s\<rfloor>)[nat \<lfloor>r\<rfloor> := (b ! nat \<lfloor>s\<rfloor> ! nat \<lfloor>r\<rfloor>)[nat \<lfloor>c\<rfloor> := v]]])"
proof -
  have ns: "nat \<lfloor>s\<rfloor> < 9" and nr: "nat \<lfloor>r\<rfloor> < 3" and nc: "nat \<lfloor>c\<rfloor> < 3"
    using s r c by (simp_all add: index_lt9 index_lt3)
  have wfs: "wf_small (b ! nat \<lfloor>s\<rfloor>)" by (rule wf_board_nth[OF wf ns])
  have w: "writeGrid (b ! nat \<lfloor>s\<rfloor>) r c v = Inr ((b ! nat \<lfloor>s\<rfloor>)[nat \<lfloor>r\<rfloor> := (b ! nat \<lfloor>s\<rfloor> ! nat \<lfloor>r\<rfloor>)[nat \<lfloor>c\<rfloor> := v]])"
    using writeGrid_wf(1)[OF wfs nr nc, of v] index_as_nat(1)[OF r(1,2)] index_as_nat(1)[OF c(1,2)]
    by simp
  show "writeCell b s r c v =
           Inr (b[nat \<lfloor>s\<rfloor> := (b ! nat \<lfloor>s\<rfloor>)[nat \<lfloor>r\<rfloor> := (b ! nat \<lfloor>s\<rfloor> ! nat \<lfloor>r\<rfloor>)[nat \<lfloor>c\<rfloor> := v]]])"
    using s by (simp add: writeCell_def elemAt_wf_board[OF wf] w bindE_def)
  show "wf_board (b[nat \<lfloor>s\<rfloor> := (b ! nat \<lfloor>s\<rfloor>)[nat \<lfloor>r\<rfloor> := (b ! nat \<lfloor>s\<rfloor> ! nat \<lfloor>r\<rfloor>)[nat \<lfloor>c\<rfloor> := v]]])"
    by (rule wf_board_update[OF wf writeGrid_wf(2)[OF wfs nr nc]])
qed

lemma next_index_facts:
  assumes r: "(r::rat) \<in> \<int>" "0 \<le> r" "r < 3" and c: "(c::rat) \<in> \<int>" "0 \<le> c" "c < 3"
  shows "r * 3 + c \<in> \<int>" "0 \<le> r * 3 + c" "r * 3 + c < 9"
proof -
  show "r * 3 + c \<in> \<int>" using r(1) c(1) by (simp add: Ints_mult Ints_add)
  show "0 \<le> r * 3 + c" using r(2) c(2) by simp
  from r(1) obtain k :: int where k: "r = of_int k" by (auto elim: Ints_cases)
  with r(3) have "k \<le> 2" by simp
  then have "r \<le> 2" unfolding k by (simp add: of_int_le_numeral_iff del: of_int_le_iff)
  with c(3) show "r * 3 + c < 9" by simp
qed

lemma getNextBoardIndex_wf:
  assumes wf: "wf_board b" and r: "r \<in> \<int>" "0 \<le> r" "r < 3"
    and c: "c \<in> \<int>" "0 \<le> c" "c < 3"
  shows "getNextBoardIndex b r c =
           Inr (if undecided (b ! nat \<lfloor>r * 3 + c\<rfloor>) \<and> has_empty_cell (b ! nat \<lfloor>r * 3 + c\<rfloor>)
                then Some (r * 3 + c) else None)"
proof -
  have i: "r * 3 + c \<in> \<int>" "0 \<le> r * 3 + c" "r * 3 + c < 9"
    using next_index_facts[OF r c] by simp_all
  then have ni: "nat \<lfloor>r * 3 + c\<rfloor> < 9" by (simp add: index_lt9)
  have wfs: "wf_small (b ! nat \<lfloor>r * 3 + c\<rfloor>)" by (rule wf_board_nth[OF wf ni])
  have w: "\<And>m. checkSmallBoardWinAt b (r * 3 + c) m =
             Inr (three_in_a_row (b ! nat \<lfloor>r * 3 + c\<rfloor>) m)"
    using checkSmallBoardWinAt_wf[OF wf ni] index_as_nat(1)[OF i(1,2)] by simp
  show ?thesis
    using i
    by (simp add: getNextBoardIndex_def Let_def w elemAt_wf_board[OF wf] orE_def bindE_def
          getEmptyCellIndexes_nil[OF wfs] undecided_def)
qed

lemma isValidMove_true_bounds:
  assumes "wf_board b" "isValidMove s r c over b cur turn player = Inr True"
  shows "s \<in> \<int> \<and> 0 \<le> s \<and> s < 9 \<and> r \<in> \<int> \<and> 0 \<le> r \<and> r < 3 \<and>
         c \<in> \<int> \<and> 0 \<le> c \<and> c < 3 \<and> \<not> over \<and> turn = player"
  using assms(2) unfolding isValidMove_wf[OF assms(1)] by (auto split: if_splits)

text \<open>The board after an accepted move, and what the handler derives from it.\<close>

lemma applyMove_wf:
  assumes wf: "wf_board (board g)"
    and s: "smallBoard pos \<in> \<int>" "0 \<le> smallBoard pos" "smallBoard pos < 9"
    and r: "row pos \<in> \<int>" "0 \<le> row pos" "row pos < 3"
    and c: "cell pos \<in> \<int>" "0 \<le> cell pos" "cell pos < 3"
  shows "\<exists>b' wb. writeCell (board g) (smallBoard pos) (row pos) (cell pos) me = Inr b' \<and>
           wf_board b' \<and> getWinnerBoard b' = Inr wb \<and> wf_small wb \<and>
           applyMove g me pos =
             (if three_in_a_row wb me
              then closeOrAdvance (g\<lparr>board := b', winner := Some me\<rparr>) pos
              else if \<not> has_empty_cell wb
              then closeOrAdvance (g\<lparr>board := b', isTie := True\<rparr>) pos
              else closeOrAdvance
                     (g\<lparr>board := b', currentPlayer := (if me = SignX then SignO else SignX)\<rparr>) pos)"
proof -
  let ?b = "(board g)[nat \<lfloor>smallBoard pos\<rfloor> := (board g ! nat \<lfloor>smallBoard pos\<rfloor>)
       [nat \<lfloor>row pos\<rfloor> := (board g ! nat \<lfloor>smallBoard pos\<rfloor> ! nat \<lfloor>row pos\<rfloor>)[nat \<lfloor>cell pos\<rfloor> := me]]]"
  have w: "writeCell (board g) (smallBoard pos) (row pos) (cell pos) me = Inr ?b"
    and wfb: "wf_board ?b"
    using writeCell_wf[OF wf s r c, of me] by simp_all
  from getWinnerBoard_wf[OF wfb] obtain wb where
    wb: "getWinnerBoard ?b = Inr wb" "wf_small wb" by blast
  have "applyMove g me pos =
             (if three_in_a_row wb me
              then closeOrAdvance (g\<lparr>board := ?b, winner := Some me\<rparr>) pos
              else if \<not> has_empty_cell wb
              then closeOrAdvance (g\<lparr>board := ?b, isTie := True\<rparr>) pos
              else closeOrAdvance
                     (g\<lparr>board := ?b, currentPlayer := (if me = SignX then SignO else SignX)\<rparr>) pos)"
    by (simp add: applyMove_def w wb checkWin_eq checkSmallBoardWin_wf[OF wb(2)]
          checkTie_wf[OF wb(2)])
  with w wfb wb show ?thesis by blast
qed

lemma closeOrAdvance_wf:
  assumes wf: "wf_board (board g)" and r: "row pos \<in> \<int>" "0 \<le> row pos" "row pos < 3"
    and c: "cell pos \<in> \<int>" "0 \<le> cell pos" "cell pos < 3"
  shows "closeOrAdvance g pos =
     (if winner g \<noteq> None \<or> isTie g then (g\<lparr>gameOver := True\<rparr>, None)
      else (g\<lparr>currentBoard :=
                (if undecided (board g ! nat \<lfloor>row pos * 3 + cell pos\<rfloor>) \<and>
                    has_empty_cell (board g ! nat \<lfloor>row pos * 3 + cell pos\<rfloor>)
                 then Some (row pos * 3 + cell pos) else None)\<rparr>, None))"
  by (simp add: closeOrAdvance_def getNextBoardIndex_wf[OF wf r c])

lemma closeOrAdvance_board: "board (fst (closeOrAdvance g pos)) = board g"
  by (auto simp: closeOrAdvance_def split: sum.splits)

lemma applyMove_ok:
  assumes wf: "wf_board (board g)"
    and v: "isValidMove (smallBoard pos) (row pos) (cell pos) (gameOver g) (board g)
              (currentBoard g) turn me = Inr True"
  shows "snd (applyMove g me pos) = None \<and> wf_board (board (fst (applyMove g me pos)))"
proof -
  from isValidMove_true_bounds[OF wf v]
  have s: "smallBoard pos \<in> \<int>" "0 \<le> smallBoard pos" "smallBoard pos < 9"
    and r: "row pos \<in> \<int>" "0 \<le> row pos" "row pos < 3"
    and c: "cell pos \<in> \<int>" "0 \<le> cell pos" "cell pos < 3" by simp_all
  from applyMove_wf[OF wf s r c, of me] obtain b' wb where
    a: "wf_board b'"
       "applyMove g me pos =
             (if three_in_a_row wb me
              then closeOrAdvance (g\<lparr>board := b', winner := Some me\<rparr>) pos
              else if \<not> has_empty_cell wb
              then closeOrAdvance (g\<lparr>board := b', isTie := True\<rparr>) pos
              else closeOrAdvance
                     (g\<lparr>board := b', currentPlayer := (if me = SignX then SignO else SignX)\<rparr>) pos)"
    by blast
  have k: "\<And>h. board h = b' \<Longrightarrow> snd (closeOrAdvance h pos) = None \<and>
              wf_board (board (fst (closeOrAdvance h pos)))"
    using a(1) r c by (simp add: closeOrAdvance_wf)
  show ?thesis unfolding a(2) using k by simp
qed

lemma make_move_on_cases:
  "after (make_move_on g sid rc pos) = g \<or>
   (isValidMove (smallBoard pos) (row pos) (cell pos) (gameOver g) (board g)
      (currentBoard g) (currentPlayer g) (currentPlayer g) = Inr True \<and>
    after (make_move_on g sid rc pos) = fst (applyMove g (currentPlayer g) pos))"
  by (auto simp: make_move_on_def reply_def Let_def
      split: option.splits sum.splits bool.splits prod.splits)

lemma make_move_on_wf:
  assumes wf: "wf_board (board g)"
  shows "wf_board (board (after (make_move_on g sid rc pos)))"
  using make_move_on_cases[of g sid rc pos] wf applyMove_ok[OF wf] by metis

lemma make_move_on_accepted:
  assumes "emitted (make_move_on g sid rc pos) = [(ToRoom rc', m)]"
  shows "\<exists>p. find (\<lambda>p. player_id p = sid) (players g) = Some p \<and>
              sign p = currentPlayer g \<and> sign p \<noteq> SignEmpty \<and>
              isValidMove (smallBoard pos) (row pos) (cell pos) (gameOver g) (board g)
                (currentBoard g) (currentPlayer g) (currentPlayer g) = Inr True \<and>
              applyMove g (currentPlayer g) pos = (after (make_move_on g sid rc pos), None) \<and>
              m = moveMade rc (after (make_move_on g sid rc pos)) \<and> rc' = rc \<and>
              raised (make_move_on g sid rc pos) = None"
  using assms
  by (auto simp: make_move_on_def reply_def Let_def
      split: option.splits sum.splits bool.splits prod.splits if_splits)

lemma empty_small_facts:
  "undecided getEmptySmallBoard" "has_empty_cell getEmptySmallBoard"
  by (simp_all add: undecided_def getEmptySmallBoard_def three_in_a_row3 has_empty_cell3)

lemma topRowX_facts:
  "wf_small topRowX" "three_in_a_row topRowX SignX" "\<not> three_in_a_row topRowX SignO"
  "has_empty_cell topRowX"
  by (simp_all add: wf_small_def topRowX_def three_in_a_row3 has_empty_cell3)

lemma make_move_on_raised:
  assumes wf: "wf_board (board g)"
  shows "raised (make_move_on g sid rc pos) = None \<or>
         (raised (make_move_on g sid rc pos) = Some TypeError \<and>
          \<not> (smallBoard pos \<in> \<int> \<and> 0 \<le> smallBoard pos \<and> smallBoard pos < 9 \<and>
             row pos \<in> \<int> \<and> 0 \<le> row pos \<and> row pos < 3) \<and>
          after (make_move_on g sid rc pos) = g \<and> emitted (make_move_on g sid rc pos) = [])"
proof -
  have v: "\<And>e. isValidMove (smallBoard pos) (row pos) (cell pos) (gameOver g) (board g)
            (currentBoard g) (currentPlayer g) (currentPlayer g) = Inl e \<Longrightarrow>
          e = TypeError \<and>
          \<not> (smallBoard pos \<in> \<int> \<and> 0 \<le> smallBoard pos \<and> smallBoard pos < 9 \<and>
             row pos \<in> \<int> \<and> 0 \<le> row pos \<and> row pos < 3)"
    unfolding isValidMove_wf[OF wf] by (auto split: if_splits)
  have a: "\<And>g' e. isValidMove (smallBoard pos) (row pos) (cell pos) (gameOver g) (board g)
            (currentBoard g) (currentPlayer g) (currentPlayer g) = Inr True \<Longrightarrow>
            applyMove g (currentPlayer g) pos = (g', Some e) \<Longrightarrow> False"
    using applyMove_ok[OF wf] by fastforce
  show ?thesis
    using v a
    by (auto simp: make_move_on_def reply_def Let_def
        split: option.splits sum.splits bool.splits prod.splits)
qed

lemma openingGame_wf: "wf_board (board openingGame)"
  by (simp add: openingGame_def newGame_def wf_board_default)

lemma isValidMove_true_not_over:
  "isValidMove s r c over b cur turn player = Inr True \<Longrightarrow> \<not> over \<and> turn = player"
  by (auto simp: isValidMove_def bindE_def Let_def split: option.splits sum.splits)

lemma closeOrAdvance_cases:
  "closeOrAdvance h pos = (a, e) \<Longrightarrow>
     (a = h\<lparr>gameOver := True\<rparr> \<and> e = None \<and> (winner h \<noteq> None \<or> isTie h)) \<or>
     (winner h = None \<and> \<not> isTie h \<and>
      ((\<exists>x. e = Some x \<and> a = h) \<or>
       (\<exists>n. e = None \<and> getNextBoardIndex (board h) (row pos) (cell pos) = Inr n \<and>
            a = h\<lparr>currentBoard := n\<rparr>)))"
  by (auto simp: closeOrAdvance_def split: if_splits sum.splits)

lemma applyMove_cases:
  assumes "applyMove g me pos = (a, e)"
  shows "(a = g \<and> e \<noteq> None) \<or>
    (\<exists>b'. writeCell (board g) (smallBoard pos) (row pos) (cell pos) me = Inr b' \<and>
       ((a = g\<lparr>board := b'\<rparr> \<and> e \<noteq> None) \<or>
        (\<exists>wb. getWinnerBoard b' = Inr wb \<and>
           ((checkWin wb me = Inr True \<and>
             closeOrAdvance (g\<lparr>board := b', winner := Some me\<rparr>) pos = (a, e)) \<or>
            (checkWin wb me = Inr False \<and> checkTie wb = Inr True \<and>
             closeOrAdvance (g\<lparr>board := b', isTie := True\<rparr>) pos = (a, e)) \<or>
            (checkWin wb me = Inr False \<and> checkTie wb = Inr False \<and>
             closeOrAdvance
               (g\<lparr>board := b', currentPlayer := (if me = SignX then SignO else SignX)\<rparr>) pos
               = (a, e))))))"
  using assms
  by (auto simp: applyMove_def Let_def split: sum.splits bool.splits)


lemma closeOrAdvance_keeps_board:
  "closeOrAdvance h pos = (a, e) \<Longrightarrow> board a = board h"
  by (auto simp: closeOrAdvance_def split: if_splits sum.splits)

section \<open>Rejection, reachable games and the played example\<close>

lemma make_move_on_gameOver:
  assumes "gameOver g"
  shows "after (make_move_on g sid rc pos) = g"
  using make_move_on_cases[of g sid rc pos] isValidMove_true_not_over assms by blast

lemma make_move_on_rejected:
  assumes "emitted (make_move_on g sid rc pos) = [(ToSocket sid', ErrorMessage msg)]"
  shows "after (make_move_on g sid rc pos) = g"
  using assms
  by (auto simp: make_move_on_def reply_def Let_def
      split: option.splits sum.splits bool.splits prod.splits if_splits)

lemma beforeWinGame_eval:
  "beforeWinGame =
     \<lparr>players = twoPlayers,
      board =
        [[[SignEmpty, SignEmpty, SignEmpty], [SignX, SignX, SignX], [SignEmpty, SignEmpty, SignEmpty]],
         [[SignEmpty, SignEmpty, SignEmpty], [SignEmpty, SignEmpty, SignEmpty], [SignX, SignX, SignX]],
         [[SignEmpty, SignEmpty, SignEmpty], [SignX, SignX, SignEmpty], [SignEmpty, SignEmpty, SignEmpty]],
         [[SignO, SignEmpty, SignO], [SignEmpty, SignEmpty, SignEmpty], [SignEmpty, SignEmpty, SignEmpty]],
         [[SignO, SignEmpty, SignO], [SignEmpty, SignEmpty, SignEmpty], [SignEmpty, SignEmpty, SignEmpty]],
         [[SignEmpty, SignO, SignEmpty], [SignEmpty, SignEmpty, SignEmpty], [SignEmpty, SignEmpty, SignEmpty]],
         [[SignEmpty, SignO, SignEmpty], [SignEmpty, SignEmpty, SignEmpty], [SignEmpty, SignEmpty, SignEmpty]],
         [[SignEmpty, SignO, SignEmpty], [SignEmpty, SignEmpty, SignEmpty], [SignEmpty, SignEmpty, SignEmpty]],
         [[SignEmpty, SignEmpty, SignO], [SignEmpty, SignEmpty, SignEmpty], [SignEmpty, SignEmpty, SignEmpty]]],
      currentPlayer = SignX, currentBoard = Some 2, gameOver = False, winner = None,
      isTie = False\<rparr>"
  by code_simp

lemma wonGame_eval:
  "wonGame =
     \<lparr>players = twoPlayers,
      board =
        [[[SignEmpty, SignEmpty, SignEmpty], [SignX, SignX, SignX], [SignEmpty, SignEmpty, SignEmpty]],
         [[SignEmpty, SignEmpty, SignEmpty], [SignEmpty, SignEmpty, SignEmpty], [SignX, SignX, SignX]],
         [[SignEmpty, SignEmpty, SignEmpty], [SignX, SignX, SignX], [SignEmpty, SignEmpty, SignEmpty]],
         [[SignO, SignEmpty, SignO], [SignEmpty, SignEmpty, SignEmpty], [SignEmpty, SignEmpty, SignEmpty]],
         [[SignO, SignEmpty, SignO], [SignEmpty, SignEmpty, SignEmpty], [SignEmpty, SignEmpty, SignEmpty]],
         [[SignEmpty, SignO, SignEmpty], [SignEmpty, SignEmpty, SignEmpty], [SignEmpty, SignEmpty, SignEmpty]],
         [[SignEmpty, SignO, SignEmpty], [SignEmpty, SignEmpty, SignEmpty], [SignEmpty, SignEmpty, SignEmpty]],
         [[SignEmpty, SignO, SignEmpty], [SignEmpty, SignEmpty, SignEmpty], [SignEmpty, SignEmpty, SignEmpty]],
         [[SignEmpty, SignEmpty, SignO], [SignEmpty, SignEmpty, SignEmpty], [SignEmpty, SignEmpty, SignEmpty]]],
      currentPlayer = SignX, currentBoard = Some 2, gameOver = True, winner = Some SignX,
      isTie = False\<rparr>"
  by code_simp

lemma reachable_openingGame: "reachable openingGame"
proof -
  have c: "after (create_room Map.empty ''s1'' ''ROOM1'') ''ROOM1'' =
             Some (newGame\<lparr>players := [\<lparr>player_id = ''s1'', sign = SignX\<rparr>]\<rparr>)"
    by (simp add: create_room_def newGame_def)
  have j: "after (join_room_on (newGame\<lparr>players := [\<lparr>player_id = ''s1'', sign = SignX\<rparr>]\<rparr>)
             ''s2'' ''ROOM1'') = openingGame"
    by (simp add: join_room_on_def nth_opt_def openingGame_def twoPlayers_def newGame_def)
  from reachable.joined[OF reachable.created[OF c], of "''s2''" "''ROOM1''"] j
  show ?thesis by simp
qed

lemma reachable_playMoves: "reachable g \<Longrightarrow> reachable (playMoves g ms)"
proof (induction ms arbitrary: g)
  case Nil
  then show ?case by simp
next
  case (Cons m ms)
  obtain sid pos where m: "m = (sid, pos)" by (cases m)
  from Cons.prems have "reachable (after (make_move_on g sid ''ROOM1'' pos))"
    by (rule reachable.moved)
  from Cons.IH[OF this] show ?case by (simp add: m)
qed

lemma reachable_beforeWinGame: "reachable beforeWinGame"
  unfolding beforeWinGame_def by (rule reachable_playMoves[OF reachable_openingGame])

lemma reachable_wonGame: "reachable wonGame"
  unfolding wonGame_def by (rule reachable.moved[OF reachable_beforeWinGame])

lemma join_room_on_outcome:
  "winner (after (join_room_on g sid rc)) = winner g \<and>
   isTie (after (join_room_on g sid rc)) = isTie g \<and>
   gameOver (after (join_room_on g sid rc)) = gameOver g \<and>
   board (after (join_room_on g sid rc)) = board g"
  by (simp add: join_room_on_def reply_def Let_def split: option.splits)

lemma applyMove_outcome:
  assumes pre: "winner g = None" "\<not> isTie g" and ap: "applyMove g me pos = (a, e)"
  shows "\<not> (winner a \<noteq> None \<and> isTie a) \<and> (winner a \<noteq> None \<or> isTie a \<longrightarrow> gameOver a)"
  using applyMove_cases[OF ap] pre
  by (auto dest!: closeOrAdvance_cases)

lemma make_move_on_outcome:
  assumes "\<not> (winner g \<noteq> None \<and> isTie g)" "winner g \<noteq> None \<or> isTie g \<longrightarrow> gameOver g"
  shows "\<not> (winner (after (make_move_on g sid rc pos)) \<noteq> None \<and>
            isTie (after (make_move_on g sid rc pos))) \<and>
         (winner (after (make_move_on g sid rc pos)) \<noteq> None \<or>
            isTie (after (make_move_on g sid rc pos)) \<longrightarrow>
          gameOver (after (make_move_on g sid rc pos)))"
proof -
  from make_move_on_cases[of g sid rc pos] consider
      (same) "after (make_move_on g sid rc pos) = g"
    | (applied) "isValidMove (smallBoard pos) (row pos) (cell pos) (gameOver g) (board g)
        (currentBoard g) (currentPlayer g) (currentPlayer g) = Inr True"
        "after (make_move_on g sid rc pos) = fst (applyMove g (currentPlayer g) pos)"
    by blast
  then show ?thesis
  proof cases
    case same
    then show ?thesis using assms by simp
  next
    case applied
    from isValidMove_true_not_over[OF applied(1)] have "\<not> gameOver g" by simp
    with assms have pre: "winner g = None" "\<not> isTie g" by auto
    from applyMove_outcome[OF pre, of "currentPlayer g" pos] show ?thesis
      unfolding applied(2) by (metis prod.collapse)
  qed
qed

lemma reachable_wf_board: "reachable g \<Longrightarrow> wf_board (board g)"
proof (induction rule: reachable.induct)
  case (created games socketId roomCode game)
  then show ?case by (auto simp: create_room_def newGame_def wf_board_default)
next
  case (joined game socketId roomCode)
  then show ?case by (simp add: join_room_on_outcome)
next
  case (moved game socketId roomCode position)
  from moved.IH show ?case by (rule make_move_on_wf)
next
  case (restarted game roomCode)
  then show ?case by (simp add: restart_game_on_def wf_board_default)
qed

lemma oneRoom_lookup: "oneRoom ''ROOM1'' = Some beforeWinGame"
  by (simp add: oneRoom_def)

lemma finishedRoom_lookup: "finishedRoom ''ROOM1'' = Some wonGame"
  by (simp add: finishedRoom_def)

section \<open>What the handlers can raise\<close>

text \<open>Every exception of the model's handlers is a \<open>TypeError\<close>: the write of a move comes
  after the validator has found the cell, and the winner board keeps its three columns.\<close>

lemma cellIs_error: "cellIs g r c p = Inl e \<Longrightarrow> e = TypeError"
  by (auto simp: cellIs_def split: option.splits)

lemma andE_error:
  assumes "andE a b = Inl e" "\<And>e. a = Inl e \<Longrightarrow> e = TypeError" "\<And>e. b = Inl e \<Longrightarrow> e = TypeError"
  shows "e = TypeError"
  using assms by (auto simp: andE_def bindE_def split: sum.splits if_splits)

lemma orE_error:
  assumes "orE a b = Inl e" "\<And>e. a = Inl e \<Longrightarrow> e = TypeError" "\<And>e. b = Inl e \<Longrightarrow> e = TypeError"
  shows "e = TypeError"
  using assms by (auto simp: orE_def bindE_def split: sum.splits if_splits)

lemma winLoop_error: "winLoop b p xs = Inl e \<Longrightarrow> e = TypeError"
  by (induction xs) (auto split: option.splits if_splits)

lemma diagonals_error: "diagonals b p = Inl e \<Longrightarrow> e = TypeError"
  unfolding diagonals_def
  by (erule orE_error; (erule andE_error)?; (erule andE_error)?; (erule cellIs_error)?)

lemma checkSmallBoardWin_error: "checkSmallBoardWin b p = Inl e \<Longrightarrow> e = TypeError"
  by (auto simp: checkSmallBoardWin_def bindE_def split: sum.splits if_splits
      dest: winLoop_error diagonals_error)

lemma checkWin_error: "checkWin b p = Inl e \<Longrightarrow> e = TypeError"
  by (simp add: checkWin_eq checkSmallBoardWin_error)

lemma checkSmallBoardWinAt_error: "checkSmallBoardWinAt b i p = Inl e \<Longrightarrow> e = TypeError"
  by (auto simp: checkSmallBoardWinAt_def split: option.splits dest: checkSmallBoardWin_error)

lemma canMoveToSmallBoard_error: "canMoveToSmallBoard b = Inl e \<Longrightarrow> e = TypeError"
  by (auto simp: canMoveToSmallBoard_def Let_def andE_def bindE_def
      split: sum.splits if_splits dest: checkSmallBoardWin_error)

lemma isValidMove_error: "isValidMove s r c over b cur turn p = Inl e \<Longrightarrow> e = TypeError"
  by (auto simp: isValidMove_def Let_def bindE_def
      split: option.splits sum.splits dest: cellIs_error canMoveToSmallBoard_error)

lemma tieLoopJ_error: "tieLoopJ g i xs = Inl e \<Longrightarrow> e = TypeError"
  by (induction xs)
     (auto simp: bindE_def andE_def split: sum.splits if_splits dest: cellIs_error)

lemma tieLoopI_error: "tieLoopI g xs = Inl e \<Longrightarrow> e = TypeError"
  by (induction xs) (auto simp: bindE_def split: sum.splits if_splits dest: tieLoopJ_error)

lemma checkTie_error: "checkTie g = Inl e \<Longrightarrow> e = TypeError"
  by (simp add: checkTie_def tieLoopI_error)

lemma getNextBoardIndex_error: "getNextBoardIndex b r c = Inl e \<Longrightarrow> e = TypeError"
  by (auto simp: getNextBoardIndex_def Let_def bindE_def orE_def
      split: sum.splits if_splits option.splits dest: checkSmallBoardWinAt_error)

lemma writeGrid_rows3:
  assumes "list_all (\<lambda>rw. length rw = 3) wb" "x < 3"
  shows "(writeGrid wb (of_nat y) (of_nat x) v = Inl TypeError) \<or>
         (\<exists>wb'. writeGrid wb (of_nat y) (of_nat x) v = Inr wb' \<and> list_all (\<lambda>rw. length rw = 3) wb')"
proof (cases "y < length wb")
  case False
  then show ?thesis by (simp add: writeGrid_def elemAt_def nth_opt_def)
next
  case True
  then have "length (wb ! y) = 3" using assms(1) by (simp add: list_all_length)
  then show ?thesis using True assms
    by (auto simp: writeGrid_def elemAt_def nth_opt_def list_all_length nth_list_update)
qed

lemma winnerLoop_error:
  "list_all (\<lambda>rw. length rw = 3) wb \<Longrightarrow> winnerLoop b xs wb = Inl e \<Longrightarrow> e = TypeError"
proof (induction xs arbitrary: wb)
  case Nil
  then show ?case by simp
next
  case (Cons i rest)
  have x: "i mod 3 < 3" by simp
  note wx = writeGrid_rows3[OF Cons.prems(1) x, of "i div 3" SignX]
  note wo = writeGrid_rows3[OF Cons.prems(1) x, of "i div 3" SignO]
  from Cons.prems wx wo Cons.IH show ?case
    by (auto simp: bindE_def Let_def split: sum.splits if_splits
        dest: checkSmallBoardWinAt_error)
qed

lemma getWinnerBoard_error: "getWinnerBoard b = Inl e \<Longrightarrow> e = TypeError"
  unfolding getWinnerBoard_def
  by (rule winnerLoop_error[of getEmptySmallBoard]) (simp_all add: getEmptySmallBoard_def)

lemma closeOrAdvance_error: "closeOrAdvance g pos = (a, Some e) \<Longrightarrow> e = TypeError"
  by (auto simp: closeOrAdvance_def split: if_splits sum.splits dest: getNextBoardIndex_error)

lemma writeCell_after_valid:
  assumes "isValidMove s r c over b cur turn p = Inr True"
  shows "\<exists>b'. writeCell b s r c v = Inr b'"
proof -
  from assms obtain sb where sb: "elemAt b s = Some sb" and "cellIs sb r c SignEmpty = Inr True"
    by (auto simp: isValidMove_def Let_def bindE_def split: option.splits sum.splits)
  then obtain rw where "elemAt sb r = Some rw" "elemAt rw c = Some SignEmpty"
    by (auto simp: cellIs_def split: option.splits)
  then have "writeGrid sb r c v = Inr (sb[nat \<lfloor>r\<rfloor> := rw[nat \<lfloor>c\<rfloor> := v]])"
    by (auto simp: writeGrid_def elemAt_def nth_opt_def split: if_splits)
  with sb show ?thesis by (simp add: writeCell_def bindE_def)
qed

lemma applyMove_error:
  assumes v: "isValidMove (smallBoard pos) (row pos) (cell pos) over (board g) cur turn p = Inr True"
    and ap: "applyMove g me pos = (a, Some e)"
  shows "e = TypeError"
proof -
  from writeCell_after_valid[OF v, of me] obtain b' where
    w: "writeCell (board g) (smallBoard pos) (row pos) (cell pos) me = Inr b'" by blast
  from ap show ?thesis
    unfolding applyMove_def w
    by (auto simp: Let_def split: sum.splits bool.splits
        dest: getWinnerBoard_error checkWin_error checkTie_error closeOrAdvance_error)
qed

lemma make_move_on_never_grows: "raised (make_move_on g sid rc pos) \<noteq> Some GrowingWrite"
proof
  assume r: "raised (make_move_on g sid rc pos) = Some GrowingWrite"
  then consider
      (bad_check) "isValidMove (smallBoard pos) (row pos) (cell pos) (gameOver g) (board g)
                 (currentBoard g) (currentPlayer g) (currentPlayer g) = Inl GrowingWrite"
    | (bad_apply) a where "isValidMove (smallBoard pos) (row pos) (cell pos) (gameOver g) (board g)
                 (currentBoard g) (currentPlayer g) (currentPlayer g) = Inr True"
        "applyMove g (currentPlayer g) pos = (a, Some GrowingWrite)"
    by (auto simp: make_move_on_def reply_def Let_def
        split: option.splits sum.splits bool.splits prod.splits if_splits)
  then show False
  proof cases
    case bad_check
    from isValidMove_error[OF this] show False by simp
  next
    case bad_apply
    from applyMove_error[OF this] show False by simp
  qed
qed


section \<open>Orientation of the winner board\<close>

text \<open>The win test and the tie test give the same answer on a 3x3 grid and on its
  transpose, so nothing the handlers derive from the winner board depends on which of its
  two indexes is taken for the row.\<close>

lemma transpose3:
  "transpose [[a0, a1, a2], [b0, b1, b2], [c0, c1, c2]] =
     [[a0, b0, c0], [a1, b1, c1], [a2, b2, c2]]"
  by (simp add: transpose.simps)

lemma winner_board_orientation:
  assumes "wf_small g"
  shows "wf_small (transpose g) \<and> checkWin (transpose g) m = checkWin g m \<and>
         checkTie (transpose g) = checkTie g"
proof -
  from assms obtain a0 a1 a2 b0 b1 b2 c0 c1 c2
    where g: "g = [[a0, a1, a2], [b0, b1, b2], [c0, c1, c2]]" by (rule wf_smallE)
  have t: "wf_small (transpose g)" unfolding g transpose3 by (simp add: wf_small_def)
  have w: "checkWin (transpose g) m = checkWin g m"
    unfolding checkWin_eq checkSmallBoardWin_wf[OF t] checkSmallBoardWin_wf[OF assms]
    unfolding g transpose3 three_in_a_row3 by auto
  have e: "checkTie (transpose g) = checkTie g"
    unfolding checkTie_wf[OF t] checkTie_wf[OF assms]
    unfolding g transpose3 has_empty_cell3 by auto
  from t w e show ?thesis by blast
qed

section \<open>Claims\<close>

text \<open>
  C2. On every 3x3 winner board \<open>checkTie\<close> returns true exactly when no cell of it is
  the empty sign; it never raises there. For the winner board of a well-formed main board
  that means: every one of the nine small boards has three in a row for some mark. So a
  main board with a small board that is full and undecided has a winner board on which
  \<open>checkTie\<close> returns false, and when all nine small boards are full no move is accepted
  by \<open>isValidMove\<close> either.
\<close>

theorem checkTie_iff_no_empty_cell:
  "(wf_small wb \<longrightarrow> checkTie wb = Inr (\<forall>r<3. \<forall>c<3. wb ! r ! c \<noteq> SignEmpty)) \<and>
   (wf_board b \<longrightarrow>
      (\<exists>w. getWinnerBoard b = Inr w \<and> checkTie w = Inr (\<forall>i<9. \<not> undecided (b ! i)))) \<and>
   (wf_board b \<and> i < 9 \<and> undecided (b ! i) \<and> \<not> has_empty_cell (b ! i) \<longrightarrow>
      (\<exists>w. getWinnerBoard b = Inr w \<and> checkTie w = Inr False)) \<and>
   (wf_board b \<and> (\<forall>k<9. \<not> has_empty_cell (b ! k)) \<longrightarrow>
      (\<forall>s r c over cur turn player. isValidMove s r c over b cur turn player \<noteq> Inr True))"
proof (intro conjI impI)
  assume "wf_small wb"
  then show "checkTie wb = Inr (\<forall>r<3. \<forall>c<3. wb ! r ! c \<noteq> SignEmpty)"
    by (simp add: checkTie_wf has_empty_cell_nth)
next
  assume wf: "wf_board b"
  from getWinnerBoard_wf[OF wf] obtain w where
    w: "getWinnerBoard b = Inr w" "wf_small w" "\<forall>k<9. w ! (k div 3) ! (k mod 3) = winnerOf (b ! k)"
    by blast
  have "checkTie w = Inr (\<forall>i<9. \<not> undecided (b ! i))"
    using w by (simp add: checkTie_wf has_empty_cell_flat winnerOf_empty)
  with w show "\<exists>w. getWinnerBoard b = Inr w \<and> checkTie w = Inr (\<forall>i<9. \<not> undecided (b ! i))"
    by blast
next
  assume a: "wf_board b \<and> i < 9 \<and> undecided (b ! i) \<and> \<not> has_empty_cell (b ! i)"
  from getWinnerBoard_wf[of b] a obtain w where
    w: "getWinnerBoard b = Inr w" "wf_small w" "\<forall>k<9. w ! (k div 3) ! (k mod 3) = winnerOf (b ! k)"
    by blast
  have "checkTie w = Inr (\<forall>i<9. \<not> undecided (b ! i))"
    using w by (simp add: checkTie_wf has_empty_cell_flat winnerOf_empty)
  with a w show "\<exists>w. getWinnerBoard b = Inr w \<and> checkTie w = Inr False" by auto
next
  assume a: "wf_board b \<and> (\<forall>k<9. \<not> has_empty_cell (b ! k))"
  show "\<forall>s r c over cur turn player. isValidMove s r c over b cur turn player \<noteq> Inr True"
  proof (intro allI)
    fix s r c :: rat and over :: bool and cur :: CurrentBoardIndex and turn player :: Sign
    have "s \<in> \<int> \<and> 0 \<le> s \<and> s < 9 \<Longrightarrow> \<not> has_empty_cell (b ! nat \<lfloor>s\<rfloor>)"
    proof -
      assume "s \<in> \<int> \<and> 0 \<le> s \<and> s < 9"
      then have "nat \<lfloor>s\<rfloor> < 9" by (simp add: index_lt9)
      then show "\<not> has_empty_cell (b ! nat \<lfloor>s\<rfloor>)" using a by blast
    qed
    then show "isValidMove s r c over b cur turn player \<noteq> Inr True"
      using a by (auto simp: isValidMove_wf)
  qed
qed

theorem checkTie_iff_no_empty_cell_witness:
  "wf_small drawnSmallBoard \<and> checkTie drawnSmallBoard = Inr True \<and>
   wf_small getEmptySmallBoard \<and> checkTie getEmptySmallBoard = Inr False \<and>
   wf_board (replicate 9 drawnSmallBoard) \<and> (4::nat) < 9 \<and>
   undecided (replicate 9 drawnSmallBoard ! 4) \<and>
   \<not> has_empty_cell (replicate 9 drawnSmallBoard ! 4) \<and>
   (\<exists>w. getWinnerBoard (replicate 9 drawnSmallBoard) = Inr w \<and> checkTie w = Inr False) \<and>
   (\<forall>s r c over cur turn player.
      isValidMove s r c over (replicate 9 drawnSmallBoard) cur turn player \<noteq> Inr True)"
proof -
  have wfb: "wf_board (replicate 9 drawnSmallBoard)"
    by (rule wf_board_replicate[OF wf_small_drawn])
  have full: "\<forall>k<9. \<not> has_empty_cell (replicate 9 drawnSmallBoard ! k)"
    by (simp add: drawn_facts)
  have d: "checkTie drawnSmallBoard = Inr True"
    using checkTie_iff_no_empty_cell[of drawnSmallBoard "replicate 9 drawnSmallBoard" 4]
      wf_small_drawn drawn_facts has_empty_cell_nth[OF wf_small_drawn] by simp
  have e: "checkTie getEmptySmallBoard = Inr False"
    using checkTie_iff_no_empty_cell[of getEmptySmallBoard "replicate 9 drawnSmallBoard" 4]
      wf_small_empty has_empty_cell_nth[OF wf_small_empty]
    by (simp add: has_empty_cell_def getEmptySmallBoard_def)
  show ?thesis
    using checkTie_iff_no_empty_cell[of drawnSmallBoard "replicate 9 drawnSmallBoard" 4]
      wf_small_drawn wf_small_empty wfb full d e drawn_facts
    by simp
qed

text \<open>
  C1. On a well-formed main board \<open>isValidMove\<close> returns true exactly when: the indexes
  name a cell (they are integers within the board) and that cell is empty; the active board is unset or is the board played in;
  the targeted small board has no three in a row for either mark and still has an empty
  cell; the requesting mark is the current-turn mark; and the game is not over. Where the
  validator raises instead of returning (small-board or row index out of range or not an
  integer) the right side is false as well. A small board that is full but undecided fails the test of the
  empty cell, so it is not playable.
\<close>

theorem isValidMove_true_iff:
  assumes "wf_board b"
  shows "(isValidMove s r c over b cur turn player = Inr True) =
     ((s \<in> \<int> \<and> 0 \<le> s \<and> s < 9 \<and> r \<in> \<int> \<and> 0 \<le> r \<and> r < 3 \<and>
       c \<in> \<int> \<and> 0 \<le> c \<and> c < 3 \<and>
       b ! nat \<lfloor>s\<rfloor> ! nat \<lfloor>r\<rfloor> ! nat \<lfloor>c\<rfloor> = SignEmpty) \<and>
      (cur = None \<or> cur = Some s) \<and>
      (\<not> three_in_a_row (b ! nat \<lfloor>s\<rfloor>) SignX \<and> \<not> three_in_a_row (b ! nat \<lfloor>s\<rfloor>) SignO \<and>
       (\<exists>r'<3. \<exists>c'<3. b ! nat \<lfloor>s\<rfloor> ! r' ! c' = SignEmpty)) \<and>
      turn = player \<and> \<not> over)"
proof (cases "s \<in> \<int> \<and> 0 \<le> s \<and> s < 9")
  case False
  then show ?thesis by (auto simp: isValidMove_wf[OF assms])
next
  case True
  then have "nat \<lfloor>s\<rfloor> < 9" by (simp add: index_lt9)
  then have wfs: "wf_small (b ! nat \<lfloor>s\<rfloor>)" by (rule wf_board_nth[OF assms])
  show ?thesis
    unfolding isValidMove_wf[OF assms] has_empty_cell_nth[OF wfs] undecided_def
    by auto
qed

theorem isValidMove_true_iff_witness:
  "wf_board getDefaultBoard \<and>
   isValidMove 4 1 1 False getDefaultBoard None SignX SignX = Inr True \<and>
   isValidMove 4 1 (3 / 2) False getDefaultBoard None SignX SignX \<noteq> Inr True \<and>
   wf_board (replicate 9 drawnSmallBoard) \<and>
   isValidMove 4 1 1 False (replicate 9 drawnSmallBoard) None SignX SignX \<noteq> Inr True"
proof -
  have wfd: "wf_board (replicate 9 drawnSmallBoard)"
    by (rule wf_board_replicate[OF wf_small_drawn])
  have e: "getDefaultBoard ! nat \<lfloor>4::rat\<rfloor> = getEmptySmallBoard"
    by (simp add: getDefaultBoard_replicate)
  have c: "getEmptySmallBoard ! nat \<lfloor>1::rat\<rfloor> ! nat \<lfloor>1::rat\<rfloor> = SignEmpty"
    by (simp add: getEmptySmallBoard_def)
  have ex: "\<exists>r'<3. \<exists>c'<3. getEmptySmallBoard ! r' ! c' = SignEmpty"
    using empty_small_facts(2) has_empty_cell_nth[OF wf_small_empty] by simp
  have t: "isValidMove 4 1 1 False getDefaultBoard None SignX SignX = Inr True"
    using isValidMove_true_iff[OF wf_board_default, of 4 1 1 False None SignX SignX]
      e c ex empty_small_facts(1)
    by (simp add: undecided_def)
  have h: "(3 / 2 :: rat) \<notin> \<int>"
    using integral_iff[of "3 / 2"] by simp
  have n: "isValidMove 4 1 (3 / 2) False getDefaultBoard None SignX SignX \<noteq> Inr True"
    using isValidMove_true_iff[OF wf_board_default, of 4 1 "3 / 2" False None SignX SignX] h
    by blast
  have d: "replicate 9 drawnSmallBoard ! nat \<lfloor>4::rat\<rfloor> ! nat \<lfloor>1::rat\<rfloor> ! nat \<lfloor>1::rat\<rfloor>
             \<noteq> SignEmpty"
    by (simp add: drawnSmallBoard_def)
  have f: "isValidMove 4 1 1 False (replicate 9 drawnSmallBoard) None SignX SignX \<noteq> Inr True"
    using isValidMove_true_iff[OF wfd, of 4 1 1 False None SignX SignX] d by blast
  show ?thesis using wf_board_default wfd t n f by simp
qed

text \<open>
  C7. For a well-formed main board \<open>getWinnerBoard\<close> returns a 3x3 grid in which, for
  every small board index \<open>i\<close> from 0 to 8, the cell in column \<open>x = i mod 3\<close> of row
  \<open>y = i div 3\<close> (the source's \<^verbatim>\<open>winBoard[y][x]\<close>, position \<open>(x, y)\<close>) holds the mark that has
  three in a row in small board \<open>i\<close>, \<^verbatim>\<open>'X'\<close> being tested first, and the empty sign when
  neither mark has one. The grid is a function of the main board alone: the record
  \<open>Game\<close> has no field for it, and \<open>applyMove\<close> calls \<open>getWinnerBoard\<close> on the board it has
  just written. By \<open>winner_board_orientation\<close> the two tests made on the grid do not
  depend on its orientation.
\<close>

theorem getWinnerBoard_cells:
  assumes "wf_board b"
  shows "\<exists>winBoard. getWinnerBoard b = Inr winBoard \<and>
           length winBoard = 3 \<and> (\<forall>y<3. length (winBoard ! y) = 3) \<and>
           (\<forall>i<9. winBoard ! (i div 3) ! (i mod 3) =
              (if three_in_a_row (b ! i) SignX then SignX
               else if three_in_a_row (b ! i) SignO then SignO
               else SignEmpty))"
proof -
  from getWinnerBoard_wf[OF assms] obtain wb where
    w: "getWinnerBoard b = Inr wb" "wf_small wb"
       "\<forall>k<9. wb ! (k div 3) ! (k mod 3) = winnerOf (b ! k)" by blast
  from w(2) have "length wb = 3" "\<forall>y<3. length (wb ! y) = 3"
    by (simp_all add: wf_small_def list_all_length)
  with w show ?thesis unfolding winnerOf_def by blast
qed

theorem getWinnerBoard_cells_witness:
  "wf_board (getDefaultBoard[5 := topRowX]) \<and>
   (\<exists>winBoard. getWinnerBoard (getDefaultBoard[5 := topRowX]) = Inr winBoard \<and>
      winBoard ! 1 ! 2 = SignX \<and> winBoard ! 2 ! 1 = SignEmpty)"
proof -
  have wf: "wf_board (getDefaultBoard[5 := topRowX])"
    by (rule wf_board_update[OF wf_board_default topRowX_facts(1)])
  have b5: "getDefaultBoard[5 := topRowX] ! 5 = topRowX"
    and b7: "getDefaultBoard[5 := topRowX] ! 7 = getEmptySmallBoard"
    by (simp_all add: getDefaultBoard_replicate)
  from getWinnerBoard_cells[OF wf] obtain winBoard where
    w: "getWinnerBoard (getDefaultBoard[5 := topRowX]) = Inr winBoard"
       "\<forall>i<9. winBoard ! (i div 3) ! (i mod 3) =
              (if three_in_a_row ((getDefaultBoard[5 := topRowX]) ! i) SignX then SignX
               else if three_in_a_row ((getDefaultBoard[5 := topRowX]) ! i) SignO then SignO
               else SignEmpty)" by blast
  have "winBoard ! 1 ! 2 = SignX"
    using w(2)[rule_format, of 5] topRowX_facts(2) by (simp add: b5)
  moreover have "winBoard ! 2 ! 1 = SignEmpty"
    using w(2)[rule_format, of 7] empty_small_facts(1) by (simp add: b7 undecided_def)
  ultimately show ?thesis using wf w(1) by simp
qed

text \<open>
  C8, as stated. The bounds \<open>0 \<le> smallBoardIndex \<le> 8\<close> and \<open>0 \<le> row, col \<le> 2\<close> do not make
  the indexes name a cell: a client may send \<open>row = 1.5\<close>. On the initial board the move
  \<open>halfRowMove\<close> meets the bounds, \<^verbatim>\<open>board[0][1.5]\<close> is undefined, \<open>isValidMove\<close> raises
  \<open>TypeError\<close> on it and so does the \<^verbatim>\<open>make-move\<close> handler.
\<close>

theorem bounds_alone_counterexample:
  "wf_board (board openingGame) \<and>
   0 \<le> smallBoard halfRowMove \<and> smallBoard halfRowMove \<le> 8 \<and>
   0 \<le> row halfRowMove \<and> row halfRowMove \<le> 2 \<and>
   0 \<le> cell halfRowMove \<and> cell halfRowMove \<le> 2 \<and>
   elemAt (board openingGame) (smallBoard halfRowMove) = Some getEmptySmallBoard \<and>
   elemAt getEmptySmallBoard (row halfRowMove) = None \<and>
   isValidMove (smallBoard halfRowMove) (row halfRowMove) (cell halfRowMove)
     (gameOver openingGame) (board openingGame) (currentBoard openingGame)
     (currentPlayer openingGame) SignX = Inl TypeError \<and>
   raised (make_move_on openingGame ''s1'' ''ROOM1'' halfRowMove) = Some TypeError"
proof -
  have b: "0 \<le> smallBoard halfRowMove \<and> smallBoard halfRowMove \<le> 8 \<and>
           0 \<le> row halfRowMove \<and> row halfRowMove \<le> 2 \<and>
           0 \<le> cell halfRowMove \<and> cell halfRowMove \<le> 2"
    by (simp add: halfRowMove_def)
  have r1: "elemAt (board openingGame) (smallBoard halfRowMove) = Some getEmptySmallBoard"
    by code_simp
  have r2: "elemAt getEmptySmallBoard (row halfRowMove) = None"
    by code_simp
  have v: "isValidMove (smallBoard halfRowMove) (row halfRowMove) (cell halfRowMove)
     (gameOver openingGame) (board openingGame) (currentBoard openingGame)
     (currentPlayer openingGame) SignX = Inl TypeError"
    by code_simp
  have m: "raised (make_move_on openingGame ''s1'' ''ROOM1'' halfRowMove) = Some TypeError"
    by code_simp
  from openingGame_wf b r1 r2 v m show ?thesis by blast
qed

text \<open>
  C8, amended. On a well-formed board, when \<open>smallBoardIndex\<close>, \<open>row\<close> and \<open>col\<close> are
  integers with \<open>0 \<le> smallBoardIndex \<le> 8\<close> and \<open>0 \<le> row, col \<le> 2\<close>, the three reads
  \<^verbatim>\<open>board[smallBoardIndex][row][col]\<close> of \<open>isValidMove\<close> are all defined, \<open>isValidMove\<close>
  returns a boolean, the write of the move is in range and keeps the board well-formed,
  and the whole \<^verbatim>\<open>make-move\<close> handler ends without raising. The validator checks neither
  the bounds nor that the indexes are integers: on the initial board a small-board index
  of 9 or -1 and a row of 3 or 1.5 make it raise \<open>TypeError\<close>, a column of 3 or 1.5 reads
  an undefined cell (the answer is false), and the bare write would raise, grow the row
  or add a property to it there.
\<close>

theorem integer_in_bounds_move_never_raises:
  assumes "wf_board (board g)"
    and "smallBoard pos \<in> \<int>" "0 \<le> smallBoard pos" "smallBoard pos \<le> 8"
    and "row pos \<in> \<int>" "0 \<le> row pos" "row pos \<le> 2"
    and "cell pos \<in> \<int>" "0 \<le> cell pos" "cell pos \<le> 2"
  shows "(\<exists>sb rw sg. elemAt (board g) (smallBoard pos) = Some sb \<and>
                       elemAt sb (row pos) = Some rw \<and> elemAt rw (cell pos) = Some sg) \<and>
         (\<exists>v. isValidMove (smallBoard pos) (row pos) (cell pos) (gameOver g) (board g)
                 (currentBoard g) (currentPlayer g) me = Inr v) \<and>
         (\<exists>b'. writeCell (board g) (smallBoard pos) (row pos) (cell pos) me = Inr b' \<and>
                 wf_board b') \<and>
         raised (make_move_on g sid rc pos) = None \<and>
         wf_board (board (after (make_move_on g sid rc pos))) \<and>
         isValidMove 9 0 0 False getDefaultBoard None SignX SignX = Inl TypeError \<and>
         isValidMove (- 1) 0 0 False getDefaultBoard None SignX SignX = Inl TypeError \<and>
         isValidMove 0 3 0 False getDefaultBoard None SignX SignX = Inl TypeError \<and>
         isValidMove 0 (3 / 2) 0 False getDefaultBoard None SignX SignX = Inl TypeError \<and>
         isValidMove 0 0 3 False getDefaultBoard None SignX SignX = Inr False \<and>
         isValidMove 0 0 (3 / 2) False getDefaultBoard None SignX SignX = Inr False \<and>
         writeCell getDefaultBoard 9 0 0 SignX = Inl TypeError \<and>
         writeCell getDefaultBoard 0 3 0 SignX = Inl TypeError \<and>
         writeCell getDefaultBoard 0 (3 / 2) 0 SignX = Inl TypeError \<and>
         writeCell getDefaultBoard 0 0 3 SignX = Inl GrowingWrite \<and>
         writeCell getDefaultBoard 0 0 (3 / 2) SignX = Inl GrowingWrite"
proof -
  have le: "\<And>i::rat. i \<in> \<int> \<Longrightarrow> i \<le> 8 \<Longrightarrow> i < 9" "\<And>i::rat. i \<in> \<int> \<Longrightarrow> i \<le> 2 \<Longrightarrow> i < 3"
    by simp_all
  have s: "smallBoard pos \<in> \<int>" "0 \<le> smallBoard pos" "smallBoard pos < 9"
    and r: "row pos \<in> \<int>" "0 \<le> row pos" "row pos < 3"
    and c: "cell pos \<in> \<int>" "0 \<le> cell pos" "cell pos < 3"
    using assms le by simp_all
  have ns: "nat \<lfloor>smallBoard pos\<rfloor> < 9" using s by (simp add: index_lt9)
  have wfs: "wf_small (board g ! nat \<lfloor>smallBoard pos\<rfloor>)"
    by (rule wf_board_nth[OF assms(1) ns])
  have reads: "\<exists>sb rw sg. elemAt (board g) (smallBoard pos) = Some sb \<and>
                       elemAt sb (row pos) = Some rw \<and> elemAt rw (cell pos) = Some sg"
    using s r c
    by (simp add: elemAt_wf_board[OF assms(1)] elemAt_wf_small[OF wfs] elemAt_wf_row[OF wfs r])
  have valid: "\<exists>v. isValidMove (smallBoard pos) (row pos) (cell pos) (gameOver g) (board g)
                 (currentBoard g) (currentPlayer g) me = Inr v"
    using s r by (simp add: isValidMove_wf[OF assms(1)])
  have "write": "\<exists>b'. writeCell (board g) (smallBoard pos) (row pos) (cell pos) me = Inr b' \<and>
                 wf_board b'"
    using writeCell_wf[OF assms(1) s r c, of me] by blast
  have noraise: "raised (make_move_on g sid rc pos) = None"
    using make_move_on_raised[OF assms(1), of sid rc pos] s r by blast
  have h: "(3 / 2 :: rat) \<notin> \<int>"
    using integral_iff[of "3 / 2"] by simp
  have outside:
    "isValidMove 9 0 0 False getDefaultBoard None SignX SignX = Inl TypeError"
    "isValidMove (- 1) 0 0 False getDefaultBoard None SignX SignX = Inl TypeError"
    "isValidMove 0 3 0 False getDefaultBoard None SignX SignX = Inl TypeError"
    "isValidMove 0 (3 / 2) 0 False getDefaultBoard None SignX SignX = Inl TypeError"
    "isValidMove 0 0 3 False getDefaultBoard None SignX SignX = Inr False"
    "isValidMove 0 0 (3 / 2) False getDefaultBoard None SignX SignX = Inr False"
    using h by (simp_all add: isValidMove_wf[OF wf_board_default])
  have outside_write:
    "writeCell getDefaultBoard 9 0 0 SignX = Inl TypeError"
    "writeCell getDefaultBoard 0 3 0 SignX = Inl TypeError"
    "writeCell getDefaultBoard 0 (3 / 2) 0 SignX = Inl TypeError"
    "writeCell getDefaultBoard 0 0 3 SignX = Inl GrowingWrite"
    "writeCell getDefaultBoard 0 0 (3 / 2) SignX = Inl GrowingWrite"
    by code_simp+
  show ?thesis
    using reads valid "write" noraise make_move_on_wf[OF assms(1), of sid rc pos]
      outside outside_write by simp
qed

theorem integer_in_bounds_move_never_raises_witness:
  "wf_board (board openingGame) \<and>
   (8::rat) \<in> \<int> \<and> (2::rat) \<in> \<int> \<and> (0::rat) \<in> \<int> \<and>
   raised (make_move_on openingGame ''s1'' ''ROOM1'' \<lparr>smallBoard = 8, row = 2, cell = 0\<rparr>) = None \<and>
   (\<exists>v. isValidMove 8 2 0 (gameOver openingGame) (board openingGame)
           (currentBoard openingGame) (currentPlayer openingGame) SignX = Inr v)"
  using integer_in_bounds_move_never_raises[of openingGame "\<lparr>smallBoard = 8, row = 2, cell = 0\<rparr>"
      SignX "''s1''" "''ROOM1''"] openingGame_wf
  by simp

text \<open>
  C3. When \<^verbatim>\<open>make-move\<close> accepts a move (it broadcasts to the room) and the game is not
  over afterwards, \<open>row * 3 + cell\<close> is an integer from 0 to 8 and the new active board is
  decided by the small board at that index of the board after the write: the index itself when that board has no
  three in a row for either mark and has an empty cell, and null otherwise. The index
  is computed from the row and the cell of the move; \<open>smallBoard\<close> does not occur in it.
\<close>

theorem next_board_from_row_and_cell:
  assumes wf: "wf_board (board g)"
    and acc: "emitted (make_move_on g sid rc pos) = [(ToRoom rc, m)]"
    and cont: "\<not> gameOver (after (make_move_on g sid rc pos))"
  shows "row pos * 3 + cell pos \<in> \<int> \<and>
         0 \<le> row pos * 3 + cell pos \<and> row pos * 3 + cell pos < 9 \<and>
         currentBoard (after (make_move_on g sid rc pos)) =
           (let sb = board (after (make_move_on g sid rc pos)) ! nat \<lfloor>row pos * 3 + cell pos\<rfloor>
            in if \<not> three_in_a_row sb SignX \<and> \<not> three_in_a_row sb SignO \<and>
                  (\<exists>r<3. \<exists>c<3. sb ! r ! c = SignEmpty)
               then Some (row pos * 3 + cell pos) else None)"
proof -
  let ?a = "after (make_move_on g sid rc pos)"
  from make_move_on_accepted[OF acc] have
    v: "isValidMove (smallBoard pos) (row pos) (cell pos) (gameOver g) (board g)
          (currentBoard g) (currentPlayer g) (currentPlayer g) = Inr True"
    and ap: "applyMove g (currentPlayer g) pos = (?a, None)" by blast+
  from isValidMove_true_bounds[OF wf v]
  have s: "smallBoard pos \<in> \<int>" "0 \<le> smallBoard pos" "smallBoard pos < 9"
    and r: "row pos \<in> \<int>" "0 \<le> row pos" "row pos < 3"
    and c: "cell pos \<in> \<int>" "0 \<le> cell pos" "cell pos < 3" by simp_all
  have i: "row pos * 3 + cell pos \<in> \<int>" "0 \<le> row pos * 3 + cell pos"
    "row pos * 3 + cell pos < 9"
    using next_index_facts[OF r c] by simp_all
  then have ni: "nat \<lfloor>row pos * 3 + cell pos\<rfloor> < 9" by (simp add: index_lt9)
  from applyMove_wf[OF wf s r c, of "currentPlayer g"] obtain b' wb where
    wfb: "wf_board b'"
    and eq: "applyMove g (currentPlayer g) pos =
             (if three_in_a_row wb (currentPlayer g)
              then closeOrAdvance (g\<lparr>board := b', winner := Some (currentPlayer g)\<rparr>) pos
              else if \<not> has_empty_cell wb
              then closeOrAdvance (g\<lparr>board := b', isTie := True\<rparr>) pos
              else closeOrAdvance
                     (g\<lparr>board := b',
                        currentPlayer := (if currentPlayer g = SignX then SignO else SignX)\<rparr>) pos)"
    by blast
  have "\<exists>h. board h = b' \<and> closeOrAdvance h pos = (?a, None)"
  proof (cases "three_in_a_row wb (currentPlayer g)")
    case True
    with eq ap have
      "closeOrAdvance (g\<lparr>board := b', winner := Some (currentPlayer g)\<rparr>) pos = (?a, None)"
      by simp
    moreover have "board (g\<lparr>board := b', winner := Some (currentPlayer g)\<rparr>) = b'" by simp
    ultimately show ?thesis by blast
  next
    case nowin: False
    show ?thesis
    proof (cases "has_empty_cell wb")
      case False
      with nowin eq ap have "closeOrAdvance (g\<lparr>board := b', isTie := True\<rparr>) pos = (?a, None)"
        by simp
      moreover have "board (g\<lparr>board := b', isTie := True\<rparr>) = b'" by simp
      ultimately show ?thesis by blast
    next
      case True
      with nowin eq ap have
        "closeOrAdvance (g\<lparr>board := b',
            currentPlayer := (if currentPlayer g = SignX then SignO else SignX)\<rparr>) pos = (?a, None)"
        by simp
      moreover have "board (g\<lparr>board := b',
            currentPlayer := (if currentPlayer g = SignX then SignO else SignX)\<rparr>) = b'" by simp
      ultimately show ?thesis by blast
    qed
  qed
  then obtain h where h: "board h = b'" "closeOrAdvance h pos = (?a, None)" by blast
  have wfh: "wf_board (board h)" using h wfb by simp
  have "winner h = None \<and> \<not> isTie h"
  proof (rule ccontr)
    assume "\<not> (winner h = None \<and> \<not> isTie h)"
    then have "closeOrAdvance h pos = (h\<lparr>gameOver := True\<rparr>, None)"
      by (auto simp: closeOrAdvance_def)
    with h(2) have "?a = h\<lparr>gameOver := True\<rparr>" by simp
    then have "gameOver ?a = gameOver (h\<lparr>gameOver := True\<rparr>)" by (rule arg_cong)
    with cont show False by simp
  qed
  then have a: "?a = h\<lparr>currentBoard :=
                (if undecided (board h ! nat \<lfloor>row pos * 3 + cell pos\<rfloor>) \<and>
                    has_empty_cell (board h ! nat \<lfloor>row pos * 3 + cell pos\<rfloor>)
                 then Some (row pos * 3 + cell pos) else None)\<rparr>"
    using h(2) unfolding closeOrAdvance_wf[OF wfh r c] by simp
  have ba: "board ?a = board h" by (subst a) simp
  have wfs: "wf_small (board h ! nat \<lfloor>row pos * 3 + cell pos\<rfloor>)"
    by (rule wf_board_nth[OF wfh ni])
  have "currentBoard ?a =
          (if undecided (board h ! nat \<lfloor>row pos * 3 + cell pos\<rfloor>) \<and>
              has_empty_cell (board h ! nat \<lfloor>row pos * 3 + cell pos\<rfloor>)
           then Some (row pos * 3 + cell pos) else None)"
    by (subst a) simp
  then show ?thesis
    using i unfolding ba Let_def has_empty_cell_nth[OF wfs] undecided_def by simp
qed

theorem next_board_from_row_and_cell_witness:
  "wf_board (board openingGame) \<and>
   emitted (make_move_on openingGame ''s1'' ''ROOM1'' \<lparr>smallBoard = 0, row = 1, cell = 1\<rparr>) =
     [(ToRoom ''ROOM1'', moveMade ''ROOM1''
         (after (make_move_on openingGame ''s1'' ''ROOM1'' \<lparr>smallBoard = 0, row = 1, cell = 1\<rparr>)))] \<and>
   \<not> gameOver (after (make_move_on openingGame ''s1'' ''ROOM1'' \<lparr>smallBoard = 0, row = 1, cell = 1\<rparr>)) \<and>
   currentBoard (after (make_move_on openingGame ''s1'' ''ROOM1'' \<lparr>smallBoard = 0, row = 1, cell = 1\<rparr>))
     = Some 4"
proof -
  have e: "emitted (make_move_on openingGame ''s1'' ''ROOM1'' \<lparr>smallBoard = 0, row = 1, cell = 1\<rparr>) =
     [(ToRoom ''ROOM1'', moveMade ''ROOM1''
         (after (make_move_on openingGame ''s1'' ''ROOM1'' \<lparr>smallBoard = 0, row = 1, cell = 1\<rparr>)))]"
    by code_simp
  have n: "\<not> gameOver (after (make_move_on openingGame ''s1'' ''ROOM1'' \<lparr>smallBoard = 0, row = 1, cell = 1\<rparr>))"
    by code_simp
  have b: "board (after (make_move_on openingGame ''s1'' ''ROOM1'' \<lparr>smallBoard = 0, row = 1, cell = 1\<rparr>))
             ! nat \<lfloor>4::rat\<rfloor> = getEmptySmallBoard"
    by code_simp
  have ex: "\<exists>r<3. \<exists>c<3. getEmptySmallBoard ! r ! c = SignEmpty"
    using empty_small_facts(2) has_empty_cell_nth[OF wf_small_empty] by simp
  show ?thesis
    using next_board_from_row_and_cell[OF openingGame_wf e n] openingGame_wf e n b ex
      empty_small_facts(1)
    by (simp add: undecided_def)
qed

text \<open>
  C9. When \<^verbatim>\<open>make-move\<close> accepts a move and the move ends the game, that is the acting
  mark wins on the winner board of the new main board or \<open>checkTie\<close> succeeds on it, then
  \<open>currentPlayer\<close> and \<open>currentBoard\<close> of the game are what they were before the move,
  \<open>gameOver\<close> is set, on a win the winner is the mark whose turn it still is, and the
  broadcast \<^verbatim>\<open>move-made\<close> carries exactly these old values.
\<close>

theorem ending_move_keeps_turn_and_active_board:
  assumes acc: "emitted (make_move_on g sid rc pos) = [(ToRoom rc, m)]"
    and wb: "getWinnerBoard (board (after (make_move_on g sid rc pos))) = Inr winBoard"
    and ends: "checkWin winBoard (currentPlayer g) = Inr True \<or> checkTie winBoard = Inr True"
  shows "currentPlayer (after (make_move_on g sid rc pos)) = currentPlayer g \<and>
         currentBoard (after (make_move_on g sid rc pos)) = currentBoard g \<and>
         gameOver (after (make_move_on g sid rc pos)) \<and>
         (checkWin winBoard (currentPlayer g) = Inr True \<longrightarrow>
            winner (after (make_move_on g sid rc pos)) = Some (currentPlayer g)) \<and>
         m = MoveMade rc (board (after (make_move_on g sid rc pos))) (currentPlayer g)
               (currentBoard g) (winner (after (make_move_on g sid rc pos)))
               (isTie (after (make_move_on g sid rc pos))) True"
proof -
  let ?a = "after (make_move_on g sid rc pos)"
  from make_move_on_accepted[OF acc] have
    ap: "applyMove g (currentPlayer g) pos = (?a, None)"
    and m: "m = moveMade rc ?a" by blast+
  from applyMove_cases[OF ap] obtain b' wb' where
    w: "getWinnerBoard b' = Inr wb'"
    and br: "(checkWin wb' (currentPlayer g) = Inr True \<and>
             closeOrAdvance (g\<lparr>board := b', winner := Some (currentPlayer g)\<rparr>) pos = (?a, None)) \<or>
            (checkWin wb' (currentPlayer g) = Inr False \<and> checkTie wb' = Inr True \<and>
             closeOrAdvance (g\<lparr>board := b', isTie := True\<rparr>) pos = (?a, None)) \<or>
            (checkWin wb' (currentPlayer g) = Inr False \<and> checkTie wb' = Inr False \<and>
             closeOrAdvance
               (g\<lparr>board := b',
                  currentPlayer := (if currentPlayer g = SignX then SignO else SignX)\<rparr>) pos
               = (?a, None))"
    by auto
  have bd: "board ?a = b'"
    using br by (auto dest: closeOrAdvance_keeps_board)
  with w wb have same: "wb' = winBoard" by simp
  from br ends consider
      (win) "checkWin winBoard (currentPlayer g) = Inr True"
        "closeOrAdvance (g\<lparr>board := b', winner := Some (currentPlayer g)\<rparr>) pos = (?a, None)"
    | (tie) "checkWin winBoard (currentPlayer g) = Inr False"
        "closeOrAdvance (g\<lparr>board := b', isTie := True\<rparr>) pos = (?a, None)"
    unfolding same by auto
  then show ?thesis
  proof cases
    case win
    from closeOrAdvance_cases[OF win(2)]
    have a: "?a = g\<lparr>board := b', winner := Some (currentPlayer g), gameOver := True\<rparr>" by simp
    have "currentPlayer ?a = currentPlayer g" "currentBoard ?a = currentBoard g" "gameOver ?a"
      "winner ?a = Some (currentPlayer g)"
      by (subst a, simp)+
    then show ?thesis using m by (simp add: moveMade_def)
  next
    case tie
    from closeOrAdvance_cases[OF tie(2)]
    have a: "?a = g\<lparr>board := b', isTie := True, gameOver := True\<rparr>" by simp
    have "currentPlayer ?a = currentPlayer g" "currentBoard ?a = currentBoard g" "gameOver ?a"
      by (subst a, simp)+
    then show ?thesis using m tie(1) by (simp add: moveMade_def)
  qed
qed


theorem ending_move_keeps_turn_and_active_board_witness:
  "emitted (make_move_on beforeWinGame ''s1'' ''ROOM1'' winningMove) =
     [(ToRoom ''ROOM1'',
       MoveMade ''ROOM1'' (board wonGame) SignX (Some 2) (Some SignX) False True)] \<and>
   getWinnerBoard (board wonGame) =
     Inr [[SignX, SignX, SignX],
          [SignEmpty, SignEmpty, SignEmpty],
          [SignEmpty, SignEmpty, SignEmpty]] \<and>
   checkWin [[SignX, SignX, SignX],
             [SignEmpty, SignEmpty, SignEmpty],
             [SignEmpty, SignEmpty, SignEmpty]] (currentPlayer beforeWinGame) = Inr True \<and>
   currentPlayer beforeWinGame = SignX \<and> currentBoard beforeWinGame = Some 2 \<and>
   currentPlayer wonGame = SignX \<and> currentBoard wonGame = Some 2 \<and>
   winner wonGame = Some SignX"
proof -
  let ?r = "make_move_on beforeWinGame ''s1'' ''ROOM1'' winningMove"
  let ?w = "[[SignX, SignX, SignX],
             [SignEmpty, SignEmpty, SignEmpty],
             [SignEmpty, SignEmpty, SignEmpty]]"
  have a: "after ?r = wonGame" by (simp add: wonGame_def)
  have e: "emitted ?r =
     [(ToRoom ''ROOM1'',
       MoveMade ''ROOM1'' (board wonGame) SignX (Some 2) (Some SignX) False True)]"
    unfolding wonGame_def by code_simp
  have w: "getWinnerBoard (board (after ?r)) = Inr ?w"
    by code_simp
  have c: "checkWin ?w (currentPlayer beforeWinGame) = Inr True"
    by code_simp
  have p: "currentPlayer beforeWinGame = SignX" "currentBoard beforeWinGame = Some 2"
    by code_simp+
  note t = ending_move_keeps_turn_and_active_board[OF e w disjI1[OF c]]
  from t have t1: "currentPlayer (after ?r) = currentPlayer beforeWinGame" by (rule conjunct1)
  from t have t2: "currentBoard (after ?r) = currentBoard beforeWinGame" by blast
  from t c have t3: "winner (after ?r) = Some (currentPlayer beforeWinGame)" by blast
  show ?thesis
    apply (intro conjI)
           apply (rule e)
          apply (rule w[unfolded a])
         apply (rule c)
        apply (rule p(1))
       apply (rule p(2))
      apply (simp only: t1[unfolded a] p(1))
     apply (simp only: t2[unfolded a] p(2))
    apply (simp only: t3[unfolded a] p(1))
    done
qed

text \<open>
  C4. A \<^verbatim>\<open>make-move\<close> request that is rejected leaves the registry, and so the whole game
  (board, current player, active board, game-over flag, winner, tie flag, players), exactly
  as it was. The four rejections are: no room under the code, no seated player with the
  socket's id, a seated player whose sign is not the current turn, and a move for which
  \<open>isValidMove\<close> returns false; each sends one error message to the submitter only. When
  \<open>isValidMove\<close> raises instead, nothing is sent and nothing is changed either. In general,
  whenever the handler's only message is an error to the submitter, the state is untouched.
\<close>

theorem rejected_move_changes_nothing:
  "(games rc = None \<longrightarrow>
      make_move games sid rc pos =
        \<lparr>after = games, emitted = [(ToSocket sid, ErrorMessage ''Room not found!'')],
         raised = None\<rparr>) \<and>
   (\<forall>g. games rc = Some g \<longrightarrow>
      (find (\<lambda>p. player_id p = sid) (players g) = None \<longrightarrow>
         make_move games sid rc pos =
           \<lparr>after = games, emitted = [(ToSocket sid, ErrorMessage ''Player not found!'')],
            raised = None\<rparr>) \<and>
      (\<forall>p. find (\<lambda>p. player_id p = sid) (players g) = Some p \<and> sign p \<noteq> SignEmpty \<longrightarrow>
         (sign p \<noteq> currentPlayer g \<longrightarrow>
            make_move games sid rc pos =
              \<lparr>after = games, emitted = [(ToSocket sid, ErrorMessage ''Not your turn!'')],
               raised = None\<rparr>) \<and>
         (sign p = currentPlayer g \<and>
          isValidMove (smallBoard pos) (row pos) (cell pos) (gameOver g) (board g)
            (currentBoard g) (currentPlayer g) (sign p) = Inr False \<longrightarrow>
            make_move games sid rc pos =
              \<lparr>after = games, emitted = [(ToSocket sid, ErrorMessage ''Invalid move!'')],
               raised = None\<rparr>) \<and>
         (\<forall>e. sign p = currentPlayer g \<and>
          isValidMove (smallBoard pos) (row pos) (cell pos) (gameOver g) (board g)
            (currentBoard g) (currentPlayer g) (sign p) = Inl e \<longrightarrow>
            make_move games sid rc pos = \<lparr>after = games, emitted = [], raised = Some e\<rparr>))) \<and>
   (\<forall>msg. emitted (make_move games sid rc pos) = [(ToSocket sid, ErrorMessage msg)] \<longrightarrow>
      after (make_move games sid rc pos) = games)"
proof (intro conjI allI impI)
  assume "games rc = None"
  then show "make_move games sid rc pos =
        \<lparr>after = games, emitted = [(ToSocket sid, ErrorMessage ''Room not found!'')],
         raised = None\<rparr>"
    by (simp add: make_move_def reply_def)
next
  fix g assume g: "games rc = Some g"
    and "find (\<lambda>p. player_id p = sid) (players g) = None"
  then show "make_move games sid rc pos =
           \<lparr>after = games, emitted = [(ToSocket sid, ErrorMessage ''Player not found!'')],
            raised = None\<rparr>"
    by (auto simp: make_move_def make_move_on_def reply_def fun_upd_idem Let_def)
next
  fix g p assume g: "games rc = Some g"
    and "find (\<lambda>p. player_id p = sid) (players g) = Some p \<and> sign p \<noteq> SignEmpty"
    and "sign p \<noteq> currentPlayer g"
  then show "make_move games sid rc pos =
              \<lparr>after = games, emitted = [(ToSocket sid, ErrorMessage ''Not your turn!'')],
               raised = None\<rparr>"
    by (auto simp: make_move_def make_move_on_def reply_def fun_upd_idem Let_def)
next
  fix g p assume g: "games rc = Some g"
    and "find (\<lambda>p. player_id p = sid) (players g) = Some p \<and> sign p \<noteq> SignEmpty"
    and "sign p = currentPlayer g \<and>
          isValidMove (smallBoard pos) (row pos) (cell pos) (gameOver g) (board g)
            (currentBoard g) (currentPlayer g) (sign p) = Inr False"
  then show "make_move games sid rc pos =
              \<lparr>after = games, emitted = [(ToSocket sid, ErrorMessage ''Invalid move!'')],
               raised = None\<rparr>"
    by (auto simp: make_move_def make_move_on_def reply_def fun_upd_idem Let_def)
next
  fix g p e assume g: "games rc = Some g"
    and "find (\<lambda>p. player_id p = sid) (players g) = Some p \<and> sign p \<noteq> SignEmpty"
    and "sign p = currentPlayer g \<and>
          isValidMove (smallBoard pos) (row pos) (cell pos) (gameOver g) (board g)
            (currentBoard g) (currentPlayer g) (sign p) = Inl e"
  then show "make_move games sid rc pos = \<lparr>after = games, emitted = [], raised = Some e\<rparr>"
    by (auto simp: make_move_def make_move_on_def reply_def fun_upd_idem Let_def)
next
  fix msg
  assume e: "emitted (make_move games sid rc pos) = [(ToSocket sid, ErrorMessage msg)]"
  show "after (make_move games sid rc pos) = games"
  proof (cases "games rc")
    case None
    then show ?thesis by (simp add: make_move_def reply_def)
  next
    case (Some g)
    with e have "emitted (make_move_on g sid rc pos) = [(ToSocket sid, ErrorMessage msg)]"
      by (simp add: make_move_def Let_def)
    from make_move_on_rejected[OF this] Some show ?thesis
      by (simp add: make_move_def Let_def fun_upd_idem)
  qed
qed

theorem rejected_move_changes_nothing_witness:
  "make_move Map.empty ''s1'' ''ROOM1'' winningMove =
     \<lparr>after = Map.empty, emitted = [(ToSocket ''s1'', ErrorMessage ''Room not found!'')],
      raised = None\<rparr> \<and>
   make_move oneRoom ''s3'' ''ROOM1'' winningMove =
     \<lparr>after = oneRoom, emitted = [(ToSocket ''s3'', ErrorMessage ''Player not found!'')],
      raised = None\<rparr> \<and>
   make_move oneRoom ''s2'' ''ROOM1'' winningMove =
     \<lparr>after = oneRoom, emitted = [(ToSocket ''s2'', ErrorMessage ''Not your turn!'')],
      raised = None\<rparr> \<and>
   make_move oneRoom ''s1'' ''ROOM1'' wrongBoardMove =
     \<lparr>after = oneRoom, emitted = [(ToSocket ''s1'', ErrorMessage ''Invalid move!'')],
      raised = None\<rparr> \<and>
   make_move oneRoom ''s1'' ''ROOM1'' outOfRangeMove =
     \<lparr>after = oneRoom, emitted = [], raised = Some TypeError\<rparr> \<and>
   after (make_move oneRoom ''s1'' ''ROOM1'' wrongBoardMove) = oneRoom"
proof -
  let ?px = "\<lparr>player_id = ''s1'', sign = SignX\<rparr>"
  let ?po = "\<lparr>player_id = ''s2'', sign = SignO\<rparr>"
  have a: "make_move Map.empty ''s1'' ''ROOM1'' winningMove =
     \<lparr>after = Map.empty, emitted = [(ToSocket ''s1'', ErrorMessage ''Room not found!'')],
      raised = None\<rparr>"
    using rejected_move_changes_nothing[of Map.empty "''ROOM1''" "''s1''" winningMove] by simp
  have f3: "find (\<lambda>p. player_id p = ''s3'') (players beforeWinGame) = None"
    by (simp add: beforeWinGame_eval twoPlayers_def)
  have b: "make_move oneRoom ''s3'' ''ROOM1'' winningMove =
     \<lparr>after = oneRoom, emitted = [(ToSocket ''s3'', ErrorMessage ''Player not found!'')],
      raised = None\<rparr>"
    using rejected_move_changes_nothing[of oneRoom "''ROOM1''" "''s3''" winningMove]
      oneRoom_lookup f3 by blast
  have f2: "find (\<lambda>p. player_id p = ''s2'') (players beforeWinGame) = Some ?po \<and>
            sign ?po \<noteq> SignEmpty"
    by (simp add: beforeWinGame_eval twoPlayers_def)
  have t2: "sign ?po \<noteq> currentPlayer beforeWinGame"
    by (simp add: beforeWinGame_eval)
  have c: "make_move oneRoom ''s2'' ''ROOM1'' winningMove =
     \<lparr>after = oneRoom, emitted = [(ToSocket ''s2'', ErrorMessage ''Not your turn!'')],
      raised = None\<rparr>"
    using rejected_move_changes_nothing[of oneRoom "''ROOM1''" "''s2''" winningMove]
      oneRoom_lookup f2 t2 by blast
  have f1: "find (\<lambda>p. player_id p = ''s1'') (players beforeWinGame) = Some ?px \<and>
            sign ?px \<noteq> SignEmpty"
    by (simp add: beforeWinGame_eval twoPlayers_def)
  have v1: "sign ?px = currentPlayer beforeWinGame \<and>
            isValidMove (smallBoard wrongBoardMove) (row wrongBoardMove) (cell wrongBoardMove)
              (gameOver beforeWinGame) (board beforeWinGame) (currentBoard beforeWinGame)
              (currentPlayer beforeWinGame) (sign ?px) = Inr False"
    unfolding beforeWinGame_eval by code_simp
  have d: "make_move oneRoom ''s1'' ''ROOM1'' wrongBoardMove =
     \<lparr>after = oneRoom, emitted = [(ToSocket ''s1'', ErrorMessage ''Invalid move!'')],
      raised = None\<rparr>"
    using rejected_move_changes_nothing[of oneRoom "''ROOM1''" "''s1''" wrongBoardMove]
      oneRoom_lookup f1 v1 by blast
  have v2: "sign ?px = currentPlayer beforeWinGame \<and>
            isValidMove (smallBoard outOfRangeMove) (row outOfRangeMove) (cell outOfRangeMove)
              (gameOver beforeWinGame) (board beforeWinGame) (currentBoard beforeWinGame)
              (currentPlayer beforeWinGame) (sign ?px) = Inl TypeError"
    unfolding beforeWinGame_eval by code_simp
  have e: "make_move oneRoom ''s1'' ''ROOM1'' outOfRangeMove =
     \<lparr>after = oneRoom, emitted = [], raised = Some TypeError\<rparr>"
    using rejected_move_changes_nothing[of oneRoom "''ROOM1''" "''s1''" outOfRangeMove]
      oneRoom_lookup f1 v2 by blast
  have "emitted (make_move oneRoom ''s1'' ''ROOM1'' wrongBoardMove) =
          [(ToSocket ''s1'', ErrorMessage ''Invalid move!'')]"
    by (simp add: d)
  then have f: "after (make_move oneRoom ''s1'' ''ROOM1'' wrongBoardMove) = oneRoom"
    using rejected_move_changes_nothing[of oneRoom "''ROOM1''" "''s1''" wrongBoardMove] by blast
  from a b c d e f show ?thesis by blast
qed

text \<open>
  C5. \<^verbatim>\<open>restart-game\<close> on a game that is over (won or tied alike: only \<open>gameOver\<close> is
  tested) leaves a game whose board is the initial board, nine small boards of 3x3 empty
  cells, whose current player is \<^verbatim>\<open>'X'\<close>, whose active board is null, and whose
  \<open>gameOver\<close>, \<open>winner\<close> and \<open>isTie\<close> are false, null and false; the players stay seated
  and the room is told. On a game that is not over the registry is left as it is.
\<close>

theorem restart_resets_finished_game:
  assumes "games rc = Some g"
  shows "(gameOver g \<longrightarrow>
            (\<exists>g'. after (restart_game games rc) rc = Some g' \<and>
                   board g' = getDefaultBoard \<and> board g' = board newGame \<and>
                   board g' = replicate 9 (replicate 3 (replicate 3 SignEmpty)) \<and>
                   currentPlayer g' = SignX \<and> currentBoard g' = None \<and>
                   \<not> gameOver g' \<and> winner g' = None \<and> \<not> isTie g' \<and>
                   players g' = players g \<and>
                   emitted (restart_game games rc) =
                     [(ToRoom rc, GameRestarted rc getDefaultBoard SignX None False None False)])) \<and>
         (\<not> gameOver g \<longrightarrow> after (restart_game games rc) = games)"
proof -
  have "getDefaultBoard = replicate 9 (replicate 3 (replicate 3 SignEmpty))"
    by (simp add: getDefaultBoard_replicate getEmptySmallBoard_def numeral_3_eq_3)
  then show ?thesis using assms
    by (simp add: restart_game_def restart_game_on_def newGame_def fun_upd_idem)
qed

theorem restart_resets_finished_game_witness:
  "finishedRoom ''ROOM1'' = Some wonGame \<and> gameOver wonGame \<and>
   (\<exists>g'. after (restart_game finishedRoom ''ROOM1'') ''ROOM1'' = Some g' \<and>
          board g' = getDefaultBoard \<and> currentPlayer g' = SignX \<and> currentBoard g' = None \<and>
          \<not> gameOver g' \<and> winner g' = None \<and> \<not> isTie g') \<and>
   oneRoom ''ROOM1'' = Some beforeWinGame \<and> \<not> gameOver beforeWinGame \<and>
   after (restart_game oneRoom ''ROOM1'') = oneRoom"
proof -
  have o: "gameOver wonGame" by (simp add: wonGame_eval)
  have n: "\<not> gameOver beforeWinGame" by (simp add: beforeWinGame_eval)
  from restart_resets_finished_game[of finishedRoom "''ROOM1''" wonGame, OF finishedRoom_lookup] o
  have r: "\<exists>g'. after (restart_game finishedRoom ''ROOM1'') ''ROOM1'' = Some g' \<and>
          board g' = getDefaultBoard \<and> currentPlayer g' = SignX \<and> currentBoard g' = None \<and>
          \<not> gameOver g' \<and> winner g' = None \<and> \<not> isTie g'"
    by blast
  from restart_resets_finished_game[of oneRoom "''ROOM1''" beforeWinGame, OF oneRoom_lookup] n
  have k: "after (restart_game oneRoom ''ROOM1'') = oneRoom" by blast
  from finishedRoom_lookup oneRoom_lookup o n r k show ?thesis by blast
qed

text \<open>
  C6. Every game that the handlers can produce from a created room, by joining, by
  \<^verbatim>\<open>make-move\<close> requests of any kind and by restarts, has at most one of: a winner, the
  tie flag; and has \<open>gameOver\<close> set whenever it has either. Once \<open>gameOver\<close> is set, every
  \<^verbatim>\<open>make-move\<close> request leaves the game unchanged and joining keeps the flag; only
  \<^verbatim>\<open>restart-game\<close> clears it. \<^verbatim>\<open>create-room\<close> is the start of a game and never a step of
  one: it stores a new game under its room code, also when that code is in use.
\<close>

theorem game_outcome_invariant:
  assumes "reachable g"
  shows "\<not> (winner g \<noteq> None \<and> isTie g) \<and>
         (winner g \<noteq> None \<or> isTie g \<longrightarrow> gameOver g) \<and>
         (gameOver g \<longrightarrow>
            (\<forall>sid rc pos. after (make_move_on g sid rc pos) = g) \<and>
            (\<forall>sid rc. gameOver (after (join_room_on g sid rc))) \<and>
            (\<forall>rc. \<not> gameOver (after (restart_game_on g rc))))"
proof -
  from assms have inv: "\<not> (winner g \<noteq> None \<and> isTie g) \<and>
         (winner g \<noteq> None \<or> isTie g \<longrightarrow> gameOver g)"
  proof (induction rule: reachable.induct)
    case (created games socketId roomCode game)
    then show ?case by (auto simp: create_room_def newGame_def)
  next
    case (joined game socketId roomCode)
    then show ?case by (simp add: join_room_on_outcome)
  next
    case (moved game socketId roomCode position)
    then show ?case using make_move_on_outcome[of game socketId roomCode position] by blast
  next
    case (restarted game roomCode)
    then show ?case by (auto simp: restart_game_on_def)
  qed
  have "gameOver g \<longrightarrow>
            (\<forall>sid rc pos. after (make_move_on g sid rc pos) = g) \<and>
            (\<forall>sid rc. gameOver (after (join_room_on g sid rc))) \<and>
            (\<forall>rc. \<not> gameOver (after (restart_game_on g rc)))"
    by (simp add: make_move_on_gameOver join_room_on_outcome restart_game_on_def)
  with inv show ?thesis by blast
qed

theorem game_outcome_invariant_witness:
  "reachable wonGame \<and> gameOver wonGame \<and> winner wonGame = Some SignX \<and> \<not> isTie wonGame \<and>
   after (make_move_on wonGame ''s2'' ''ROOM1'' \<lparr>smallBoard = 2, row = 0, cell = 0\<rparr>) = wonGame \<and>
   gameOver (after (join_room_on wonGame ''s3'' ''ROOM1'')) \<and>
   \<not> gameOver (after (restart_game_on wonGame ''ROOM1''))"
proof -
  have o: "gameOver wonGame" "winner wonGame = Some SignX"
    by (simp_all add: wonGame_eval)
  from game_outcome_invariant[OF reachable_wonGame] o reachable_wonGame
  show ?thesis by auto
qed


text \<open>
  C10. \<^verbatim>\<open>restart-game\<close> for a room code with no game, or with a game that is not over,
  returns the registry unchanged, sends no message to anyone and raises nothing.
\<close>

theorem restart_is_silent_unless_over:
  assumes "games rc = None \<or> (\<exists>g. games rc = Some g \<and> \<not> gameOver g)"
  shows "restart_game games rc = \<lparr>after = games, emitted = [], raised = None\<rparr>"
  using assms by (auto simp: restart_game_def restart_game_on_def fun_upd_idem)


theorem restart_is_silent_unless_over_witness:
  "(Map.empty :: Games) ''ROOM1'' = None \<and>
   restart_game Map.empty ''ROOM1'' = \<lparr>after = Map.empty, emitted = [], raised = None\<rparr> \<and>
   oneRoom ''ROOM1'' = Some beforeWinGame \<and> \<not> gameOver beforeWinGame \<and>
   restart_game oneRoom ''ROOM1'' = \<lparr>after = oneRoom, emitted = [], raised = None\<rparr>"
proof -
  have n: "\<not> gameOver beforeWinGame" by (simp add: beforeWinGame_eval)
  have e: "(Map.empty :: Games) ''ROOM1'' = None" by simp
  have a: "restart_game Map.empty ''ROOM1'' = \<lparr>after = Map.empty, emitted = [], raised = None\<rparr>"
    by (rule restart_is_silent_unless_over[of Map.empty "''ROOM1''", OF disjI1[OF e]])
  have "\<exists>g. oneRoom ''ROOM1'' = Some g \<and> \<not> gameOver g"
    using oneRoom_lookup n by blast
  then have b: "restart_game oneRoom ''ROOM1'' = \<lparr>after = oneRoom, emitted = [], raised = None\<rparr>"
    by (rule restart_is_silent_unless_over[of oneRoom "''ROOM1''", OF disjI2])
  from e a oneRoom_lookup n b show ?thesis by blast
qed

end
